theory Spec2Isabelle
  imports Complex_Main
begin

section \<open>JavaScript values used by the engine and the controller\<close>

text \<open>
  Numbers of the source are IEEE 754 doubles. Indices and counts are modelled as \<open>int\<close>
  and \<open>nat\<close> (exact in a double below \<open>2^53\<close>). A double is a \<open>jsnum\<close>: a finite
  value \<open>Num r\<close>, where \<open>r\<close> is the real number the double denotes, \<open>NaN\<close> or an
  infinity; signed zeros are not distinguished. Fields that hold a finite double
  (intensity, duration, sizes, clock readings) have type \<open>real\<close>. Every arithmetic
  operation of the source rounds its exact result to the nearest double, ties to even
  (\<open>fl\<close>, \<open>to_double\<close>). A property access on an absent object is the error
  \<open>TypeError\<close>; \<open>NonNumeric\<close> stands for \<open>undefined\<close> stored in the integer field
  \<open>currentIndex\<close>.
\<close>

datatype error = TypeError | NonNumeric

datatype jsnum = Num real | NaN | PosInfinity | NegInfinity

text \<open>Rounding to the nearest integer, ties to even.\<close>

definition round_even :: "real \<Rightarrow> int" where
  "round_even y =
     (let f = \<lfloor>y\<rfloor>; d = y - of_int f
      in if d < 1 / 2 then f else if d > 1 / 2 then f + 1
         else if even f then f else f + 1)"

text \<open>
  The exponent of the binade of \<open>x\<close>: \<open>2^e \<le> |x| < 2^(e+1)\<close>, and \<open>-1022\<close> for
  the subnormal range. The doubles of that binade are the multiples of \<open>2^(e-52)\<close>.
\<close>

definition binade :: "real \<Rightarrow> int" where
  "binade x = max \<lfloor>log 2 \<bar>x\<bar>\<rfloor> (- 1022)"

definition fl :: "real \<Rightarrow> real" where
  "fl x = (if x = 0 then 0
           else of_int (round_even (x / 2 powi (binade x - 52))) * 2 powi (binade x - 52))"

text \<open>The double of a real result: it overflows to an infinity from \<open>2^1024\<close> on.\<close>

definition to_double :: "real \<Rightarrow> jsnum" where
  "to_double x =
     (let r = fl x
      in if 2 ^ 1024 \<le> r then PosInfinity
         else if r \<le> - (2 ^ 1024) then NegInfinity
         else Num r)"

text \<open>The infinity with the sign of \<open>a\<close>; \<open>NaN\<close> for zero.\<close>

definition inf_of :: "real \<Rightarrow> jsnum" where
  "inf_of a = (if 0 < a then PosInfinity else if a < 0 then NegInfinity else NaN)"

fun js_neg :: "jsnum \<Rightarrow> jsnum" where
  "js_neg (Num a) = Num (- a)"
| "js_neg NaN = NaN"
| "js_neg PosInfinity = NegInfinity"
| "js_neg NegInfinity = PosInfinity"

text \<open>\<open>a + b\<close>, \<open>a - b\<close>, \<open>a * b\<close> and \<open>a / b\<close>.\<close>

fun js_add :: "jsnum \<Rightarrow> jsnum \<Rightarrow> jsnum" where
  "js_add (Num a) (Num b) = to_double (a + b)"
| "js_add NaN b = NaN"
| "js_add a NaN = NaN"
| "js_add PosInfinity NegInfinity = NaN"
| "js_add NegInfinity PosInfinity = NaN"
| "js_add PosInfinity b = PosInfinity"
| "js_add a PosInfinity = PosInfinity"
| "js_add NegInfinity b = NegInfinity"
| "js_add a NegInfinity = NegInfinity"

definition js_sub :: "jsnum \<Rightarrow> jsnum \<Rightarrow> jsnum" where
  "js_sub a b = js_add a (js_neg b)"

fun js_mul :: "jsnum \<Rightarrow> jsnum \<Rightarrow> jsnum" where
  "js_mul (Num a) (Num b) = to_double (a * b)"
| "js_mul NaN b = NaN"
| "js_mul a NaN = NaN"
| "js_mul (Num a) PosInfinity = inf_of a"
| "js_mul (Num a) NegInfinity = inf_of (- a)"
| "js_mul PosInfinity (Num b) = inf_of b"
| "js_mul NegInfinity (Num b) = inf_of (- b)"
| "js_mul PosInfinity PosInfinity = PosInfinity"
| "js_mul PosInfinity NegInfinity = NegInfinity"
| "js_mul NegInfinity PosInfinity = NegInfinity"
| "js_mul NegInfinity NegInfinity = PosInfinity"

fun js_div :: "jsnum \<Rightarrow> jsnum \<Rightarrow> jsnum" where
  "js_div (Num a) (Num b) = (if b \<noteq> 0 then to_double (a / b) else inf_of a)"
| "js_div NaN b = NaN"
| "js_div a NaN = NaN"
| "js_div (Num a) PosInfinity = Num 0"
| "js_div (Num a) NegInfinity = Num 0"
| "js_div PosInfinity (Num b) = (if b < 0 then NegInfinity else PosInfinity)"
| "js_div NegInfinity (Num b) = (if b < 0 then PosInfinity else NegInfinity)"
| "js_div PosInfinity PosInfinity = NaN"
| "js_div PosInfinity NegInfinity = NaN"
| "js_div NegInfinity PosInfinity = NaN"
| "js_div NegInfinity NegInfinity = NaN"

text \<open>\<open>Math.min(a, b)\<close>, \<open>Math.max(a, b)\<close> and \<open>a < b\<close>.\<close>

fun js_min :: "jsnum \<Rightarrow> jsnum \<Rightarrow> jsnum" where
  "js_min (Num a) (Num b) = Num (min a b)"
| "js_min NaN b = NaN"
| "js_min a NaN = NaN"
| "js_min NegInfinity b = NegInfinity"
| "js_min a NegInfinity = NegInfinity"
| "js_min PosInfinity b = b"
| "js_min a PosInfinity = a"

fun js_max :: "jsnum \<Rightarrow> jsnum \<Rightarrow> jsnum" where
  "js_max (Num a) (Num b) = Num (max a b)"
| "js_max NaN b = NaN"
| "js_max a NaN = NaN"
| "js_max PosInfinity b = PosInfinity"
| "js_max a PosInfinity = PosInfinity"
| "js_max NegInfinity b = b"
| "js_max a NegInfinity = a"

fun js_less :: "jsnum \<Rightarrow> jsnum \<Rightarrow> bool" where
  "js_less (Num a) (Num b) = (a < b)"
| "js_less NaN b = False"
| "js_less a NaN = False"
| "js_less PosInfinity b = False"
| "js_less a NegInfinity = False"
| "js_less NegInfinity b = True"
| "js_less a PosInfinity = True"

text \<open>
  \<open>Math.pow(x, 3)\<close>. The language fixes its value at \<open>NaN\<close>, the infinities and
  zero; at any other base it is an approximation that the implementation chooses, here
  the function \<open>host\<close>.
\<close>

definition Math_pow3 :: "(real \<Rightarrow> jsnum) \<Rightarrow> jsnum \<Rightarrow> jsnum" where
  "Math_pow3 host x =
     (case x of
        Num b \<Rightarrow> if b = 0 then Num 0 else host b
      | NaN \<Rightarrow> NaN
      | PosInfinity \<Rightarrow> PosInfinity
      | NegInfinity \<Rightarrow> NegInfinity)"

type_synonym vec2 = "real \<times> real"

text \<open>
  A JavaScript array with holes: reading a hole, a negative index or an index past the
  end yields \<open>undefined\<close> (here \<open>None\<close>); writing past the end extends the array.
\<close>

definition js_get :: "'a option list \<Rightarrow> int \<Rightarrow> 'a option" where
  "js_get xs i = (if 0 \<le> i \<and> i < int (length xs) then xs ! nat i else None)"

definition js_set :: "'a option list \<Rightarrow> nat \<Rightarrow> 'a \<Rightarrow> 'a option list" where
  "js_set xs i v =
     (if i < length xs then xs[i := Some v]
      else xs @ replicate (i - length xs) None @ [Some v])"

section \<open>The transition engine: class ScrollDistortionEffect\<close>

text \<open>
  A loaded texture: the URL it came from and, when \<open>texture.image\<close> exists, the
  natural size of the image. The filter and wrap flags set by the load callbacks are not
  modelled, nor are the renderer, the scene and the camera.
\<close>

record texture =
  tex_src :: string
  tex_image :: "vec2 option"

text \<open>The uniforms of the shader material created by \<open>createMaterial\<close>.\<close>

record uniforms =
  texture1 :: "texture option"
  texture2 :: "texture option"
  displacement :: "texture option"
  progress :: jsnum
  u_intensity :: real
  resolution :: vec2
  texRes1 :: vec2
  texRes2 :: vec2

text \<open>
  The engine object. \<open>images\<close>, \<open>displacementImages\<close>, \<open>intensity\<close>,
  \<open>transitionSpeed\<close> and \<open>onImageChange\<close> are the fields of \<open>this.config\<close>
  (\<open>onImageChange\<close> records whether a callback was supplied); \<open>parentSize\<close> is
  \<open>config.parent.offsetWidth/offsetHeight\<close>; \<open>host_pow3\<close> is the approximation of
  \<open>Math.pow(x, 3)\<close> of the JavaScript implementation the engine runs on.
  \<open>this_progress\<close> is the field \<open>this.progress\<close> of the constructor, which no
  method writes. Four fields record effects
  outside the object: \<open>frameRequested\<close> is the pending
  \<open>requestAnimationFrame(() => this.animateProgress())\<close>, \<open>console\<close> the lines
  written by \<open>console.error\<close>, \<open>imageChangeCalls\<close> the arguments of the
  \<open>onImageChange\<close> calls made so far, \<open>disposed\<close> the textures disposed of.
\<close>

record engine =
  host_pow3 :: "real \<Rightarrow> jsnum"
  parentSize :: vec2
  images :: "string list"
  displacementImages :: "string list"
  intensity :: real
  transitionSpeed :: real
  onImageChange :: bool
  currentIndex :: int
  isTransitioning :: bool
  this_progress :: real
  startTime :: "real option"
  targetIndex :: "int option"
  textures :: "texture option list"
  textureResolutions :: "vec2 option list"
  displacementTextures :: "texture option list"
  displacementTexture :: "texture option"
  material :: "uniforms option"
  mesh :: "(jsnum \<times> jsnum) option"
  pendingInitialIndex :: "int option"
  frameRequested :: bool
  console :: "string list"
  imageChangeCalls :: "int list"
  disposed :: "texture list"

subsection \<open>Pure helpers\<close>

definition getDisplacementIndex :: "int \<Rightarrow> int" where
  "getDisplacementIndex targetIdx =
     (if targetIdx \<ge> 0 \<and> targetIdx \<le> 2 then 0
      else if targetIdx \<ge> 3 \<and> targetIdx \<le> 6 then 1
      else if targetIdx \<ge> 7 \<and> targetIdx \<le> 10 then 2
      else 0)"

definition computeOverscanFactor :: "engine \<Rightarrow> jsnum" where
  "computeOverscanFactor s =
     (let base = Num (fl 1.05);
          extra = js_min (Num (fl 0.6)) (js_mul (Num (intensity s)) (Num (fl 1.2)))
      in js_add base extra)"

text \<open>\<open>1 - Math.pow(1 - t, 3)\<close>.\<close>

definition easeOut :: "(real \<Rightarrow> jsnum) \<Rightarrow> jsnum \<Rightarrow> jsnum" where
  "easeOut host t = js_sub (Num 1) (Math_pow3 host (js_sub (Num 1) t))"

text \<open>\<open>a || b\<close> on a possibly undefined vector.\<close>

definition or_else :: "'a option \<Rightarrow> 'a \<Rightarrow> 'a" where
  "or_else a b = (case a of Some v \<Rightarrow> v | None \<Rightarrow> b)"

definition default_res :: vec2 where
  "default_res = (1920, 1080)"

subsection \<open>The progress animation\<close>

text \<open>
  The body of the \<open>else\<close> branch of \<open>animateProgress\<close>: the transition is complete.
  \<open>u\<close> is the uniform block after the eased value has been written.
\<close>

definition completeTransition :: "int \<Rightarrow> uniforms \<Rightarrow> engine \<Rightarrow> engine" where
  "completeTransition target u s =
     (let nextIndex = min (target + 1) (int (length (images s)) - 1)
      in s\<lparr>currentIndex := target,
           isTransitioning := False,
           material := Some (u\<lparr>progress := Num 0,
             texture1 := js_get (textures s) target,
             texture2 := js_get (textures s) nextIndex,
             texRes1 := or_else (js_get (textureResolutions s) target) (texRes1 u),
             texRes2 := or_else (js_get (textureResolutions s) nextIndex) (texRes2 u)\<rparr>)\<rparr>)"

text \<open>
  \<open>animateProgress\<close>, with the value of \<open>Date.now()\<close> it reads as the argument
  \<open>now\<close> (milliseconds, an integer). Before any \<open>transitionTo\<close>, \<open>startTime\<close> is
  \<open>undefined\<close> and the elapsed time \<open>NaN\<close>; completing with an undefined
  \<open>targetIndex\<close> would store \<open>undefined\<close> in \<open>currentIndex\<close>.
\<close>

definition animateProgress :: "real \<Rightarrow> engine \<Rightarrow> error + engine" where
  "animateProgress now s =
     (let elapsed = js_div (js_sub (Num now)
                      (case startTime s of Some start \<Rightarrow> Num start | None \<Rightarrow> NaN)) (Num 1000);
          duration = Num (transitionSpeed s);
          t = js_min (js_div elapsed duration) (Num 1);
          t = easeOut (host_pow3 s) t
      in case material s of
           None \<Rightarrow> Inl TypeError
         | Some u \<Rightarrow>
            (let u = u\<lparr>progress := t\<rparr>
             in if js_less t (Num 1)
                then Inr (s\<lparr>material := Some u, frameRequested := True\<rparr>)
                else (case targetIndex s of
                        Some target \<Rightarrow> Inr (completeTransition target u s)
                      | None \<Rightarrow> Inl NonNumeric)))"

text \<open>The browser runs a requested animation frame: the callback is \<open>animateProgress\<close>.\<close>

definition onAnimationFrame :: "real \<Rightarrow> engine \<Rightarrow> error + engine" where
  "onAnimationFrame now s =
     (if frameRequested s then animateProgress now (s\<lparr>frameRequested := False\<rparr>)
      else Inr s)"

fun frames :: "real list \<Rightarrow> engine \<Rightarrow> error + engine" where
  "frames [] s = Inr s"
| "frames (now # rest) s =
     (case onAnimationFrame now s of Inl e \<Rightarrow> Inl e | Inr s' \<Rightarrow> frames rest s')"

subsection \<open>Starting a transition\<close>

text \<open>
  \<open>transitionTo\<close> reads the clock twice: \<open>now0\<close> is the value stored in
  \<open>startTime\<close>, \<open>now1\<close> the one read by the first, synchronous call of
  \<open>animateProgress\<close>. \<open>beginTransition\<close> is the text of \<open>transitionTo\<close>
  between its two guards and that call.
\<close>

definition beginTransition :: "real \<Rightarrow> int \<Rightarrow> engine \<Rightarrow> engine" where
  "beginTransition now0 targetIdx s =
     (let s = s\<lparr>isTransitioning := True, startTime := Some now0,
                  targetIndex := Some targetIdx\<rparr>;
          displacementIndex = getDisplacementIndex targetIdx;
          s = (case js_get (displacementTextures s) displacementIndex of
                 None \<Rightarrow> s
               | Some d \<Rightarrow>
                   s\<lparr>displacementTexture := Some d,
                     material := map_option (\<lambda>u. u\<lparr>displacement := Some d\<rparr>) (material s)\<rparr>);
          s = s\<lparr>material := map_option (\<lambda>u. u\<lparr>
                 texture1 := js_get (textures s) (currentIndex s),
                 texture2 := js_get (textures s) targetIdx,
                 texRes1 := or_else (js_get (textureResolutions s) (currentIndex s)) (texRes1 u),
                 texRes2 := or_else (js_get (textureResolutions s) targetIdx) (texRes2 u)\<rparr>)
               (material s)\<rparr>
      in if onImageChange s
         then s\<lparr>imageChangeCalls := imageChangeCalls s @ [targetIdx]\<rparr> else s)"

definition transitionTo :: "real \<Rightarrow> real \<Rightarrow> int \<Rightarrow> engine \<Rightarrow> error + engine" where
  "transitionTo now0 now1 targetIdx s =
     (if isTransitioning s \<or> targetIdx = currentIndex s \<or> material s = None then Inr s
      else if js_get (textures s) targetIdx = None
        then Inr (s\<lparr>console := console s @ [''Target texture not loaded:'']\<rparr>)
      else animateProgress now1 (beginTransition now0 targetIdx s))"

definition transitionToNext :: "real \<Rightarrow> real \<Rightarrow> engine \<Rightarrow> error + engine" where
  "transitionToNext now0 now1 s =
     (if isTransitioning s \<or> material s = None then Inr s
      else
        (let atLast = (currentIndex s \<ge> int (length (images s)) - 1)
         in if atLast then Inr s
            else (let nextIndex = currentIndex s + 1
                  in transitionTo now0 now1 nextIndex s)))"

definition transitionToPrevious :: "real \<Rightarrow> real \<Rightarrow> engine \<Rightarrow> error + engine" where
  "transitionToPrevious now0 now1 s =
     (if isTransitioning s \<or> material s = None then Inr s
      else
        (let atFirst = (currentIndex s \<le> 0)
         in if atFirst then Inr s
            else (let prevIndex = currentIndex s - 1
                  in transitionTo now0 now1 prevIndex s)))"

definition getCurrentIndex :: "engine \<Rightarrow> int" where
  "getCurrentIndex s = currentIndex s"

definition isInTransition :: "engine \<Rightarrow> bool" where
  "isInTransition s = isTransitioning s"

definition setTransitionSpeed :: "real \<Rightarrow> engine \<Rightarrow> engine" where
  "setTransitionSpeed speed s = s\<lparr>transitionSpeed := speed\<rparr>"

subsection \<open>Creating the material, seeding the initial image\<close>

definition createMaterial :: "engine \<Rightarrow> engine" where
  "createMaterial s =
     s\<lparr>material := Some \<lparr>
        texture1 = js_get (textures s) 0,
        texture2 = js_get (textures s) 1,
        displacement = displacementTexture s,
        progress = Num 0,
        u_intensity = intensity s,
        resolution = parentSize s,
        texRes1 = or_else (js_get (textureResolutions s) 0) default_res,
        texRes2 = or_else (js_get (textureResolutions s) 1) default_res\<rparr>\<rparr>"

definition createMesh :: "engine \<Rightarrow> engine" where
  "createMesh s =
     (let width = fst (parentSize s);
          height = snd (parentSize s);
          overscan = computeOverscanFactor s
      in s\<lparr>mesh := Some (js_mul (Num width) overscan, js_mul (Num height) overscan)\<rparr>)"

definition applyInitialImage :: "int \<Rightarrow> engine \<Rightarrow> engine" where
  "applyInitialImage index s =
     (case material s of
        None \<Rightarrow> s
      | Some u \<Rightarrow>
         if js_get (textures s) index = None then s
         else
           (let safeIndex = max 0 (min index (int (length (images s)) - 1));
                displacementIndex = getDisplacementIndex safeIndex;
                (dt, u) = (case js_get (displacementTextures s) displacementIndex of
                             None \<Rightarrow> (displacementTexture s, u)
                           | Some d \<Rightarrow> (Some d, u\<lparr>displacement := Some d\<rparr>));
                u = u\<lparr>texture1 := js_get (textures s) safeIndex\<rparr>;
                nextIndex = min (safeIndex + 1) (int (length (images s)) - 1);
                u = (if js_get (textures s) nextIndex \<noteq> None
                     then u\<lparr>texture2 := js_get (textures s) nextIndex,
                            texRes2 := or_else (js_get (textureResolutions s) nextIndex) default_res\<rparr>
                     else u);
                u = u\<lparr>texRes1 := or_else (js_get (textureResolutions s) safeIndex) default_res\<rparr>;
                u = u\<lparr>progress := Num 0\<rparr>
            in s\<lparr>displacementTexture := dt, material := Some u, currentIndex := safeIndex\<rparr>))"

text \<open>
  \<open>!this.pendingInitialIndex\<close> holds for \<open>undefined\<close> and for the index 0.
\<close>

definition setInitialImage :: "int \<Rightarrow> engine \<Rightarrow> engine" where
  "setInitialImage index s =
     (let safeIndex = max 0 (min index (int (length (images s)) - 1));
          s = s\<lparr>currentIndex := safeIndex\<rparr>
      in if material s \<noteq> None \<and> length (textures s) > 0
            \<and> js_get (textures s) safeIndex \<noteq> None
         then applyInitialImage safeIndex s
         else if pendingInitialIndex s = None \<or> pendingInitialIndex s = Some 0
         then s\<lparr>pendingInitialIndex := Some safeIndex\<rparr>
         else s)"

definition onTexturesLoaded :: "engine \<Rightarrow> engine" where
  "onTexturesLoaded s =
     (if js_get (textures s) 0 = None \<or> js_get (textures s) 1 = None
         \<or> displacementTexture s = None \<or> material s \<noteq> None
      then s
      else
        (let s = createMaterial s;
             s = createMesh s
         in case pendingInitialIndex s of
              None \<Rightarrow> s
            | Some p \<Rightarrow> (applyInitialImage p s)\<lparr>pendingInitialIndex := None\<rparr>))"

subsection \<open>Replacing the image sequence\<close>

text \<open>
  \<open>setImages\<close> declares one parameter, \<open>imageUrls\<close>; a call with a second argument,
  as the revised controller makes it, binds that argument to nothing. The model keeps the
  argument, as a state transformer, to show where it goes. The function returns the
  variables its load callbacks close over: \<open>loadedImageCount\<close> and
  \<open>totalImages\<close>. An argument that is not an array is outside the type; the empty
  array is the other rejected input.
\<close>

record setImages_closure =
  loadedImageCount :: nat
  totalImages :: nat

definition setImages ::
  "string list \<Rightarrow> (engine \<Rightarrow> engine) option \<Rightarrow> engine \<Rightarrow> setImages_closure option \<times> engine" where
  "setImages imageUrls extraArgument s =
     (if length imageUrls = 0
      then (None, s\<lparr>console := console s @ [''setImages: Invalid imageUrls array'']\<rparr>)
      else
        (let s = s\<lparr>disposed := disposed s @ List.map_filter (\<lambda>t. t) (textures s)\<rparr>;
             s = s\<lparr>textures := [], textureResolutions := [], images := imageUrls\<rparr>
         in (Some \<lparr>loadedImageCount = 0, totalImages = length imageUrls\<rparr>, s)))"

text \<open>The success callback of the load of \<open>imageUrls[index]\<close>.\<close>

definition setImages_onLoad ::
  "nat \<Rightarrow> texture \<Rightarrow> setImages_closure \<times> engine \<Rightarrow> setImages_closure \<times> engine" where
  "setImages_onLoad index tex cs =
     (let c = fst cs; s = snd cs;
          s = s\<lparr>textures := js_set (textures s) index tex\<rparr>;
          s = (case tex_image tex of
                 None \<Rightarrow> s
               | Some wh \<Rightarrow> s\<lparr>textureResolutions := js_set (textureResolutions s) index wh\<rparr>);
          c = c\<lparr>loadedImageCount := loadedImageCount c + 1\<rparr>
      in if loadedImageCount c \<ge> 2 \<and> displacementTexture s \<noteq> None then
           (case material s of
              Some u \<Rightarrow>
                (case pendingInitialIndex s of
                   Some p \<Rightarrow> (c, (applyInitialImage p s)\<lparr>pendingInitialIndex := None\<rparr>)
                 | None \<Rightarrow>
                     (let second = min 1 (int (totalImages c) - 1)
                      in (c, s\<lparr>material := Some (u\<lparr>
                            texture1 := js_get (textures s) 0,
                            texture2 := js_get (textures s) second,
                            texRes1 := or_else (js_get (textureResolutions s) 0) default_res,
                            texRes2 := or_else (js_get (textureResolutions s) second) default_res\<rparr>)\<rparr>)))
            | None \<Rightarrow> (c, onTexturesLoaded s))
         else (c, s))"

text \<open>The error callback of the load of \<open>imageUrls[index]\<close>.\<close>

definition setImages_onError ::
  "nat \<Rightarrow> setImages_closure \<times> engine \<Rightarrow> setImages_closure \<times> engine" where
  "setImages_onError index cs =
     (fst cs, (snd cs)\<lparr>console := console (snd cs) @ [''Failed to load image'']\<rparr>)"

text \<open>
  The outcome of one load: the index and the texture, or no texture when the load failed.
  \<open>setImages_loads\<close> runs the callbacks of a batch in the order the loads finish.
\<close>

fun setImages_loads ::
  "(nat \<times> texture option) list \<Rightarrow> setImages_closure \<times> engine \<Rightarrow> setImages_closure \<times> engine" where
  "setImages_loads [] cs = cs"
| "setImages_loads ((index, Some tex) # rest) cs = setImages_loads rest (setImages_onLoad index tex cs)"
| "setImages_loads ((index, None) # rest) cs = setImages_loads rest (setImages_onError index cs)"

text \<open>
  A whole batch: the call of \<open>setImages\<close> and then the callbacks of its loads, in
  the order the loads finish.
\<close>

definition setImages_batch ::
  "string list \<Rightarrow> (engine \<Rightarrow> engine) option \<Rightarrow> (nat \<times> texture option) list \<Rightarrow> engine \<Rightarrow> engine" where
  "setImages_batch imageUrls extraArgument outcomes s =
     (case setImages imageUrls extraArgument s of
        (None, s') \<Rightarrow> s'
      | (Some c, s') \<Rightarrow> snd (setImages_loads outcomes (c, s')))"


section \<open>The controller: class WebflowGLController\<close>

subsection \<open>Reading the state index from the class list\<close>

text \<open>
  A class token matches \<open>/^state-(\d+)$/\<close> when it is \<open>state-\<close> followed by one or
  more ASCII digits; \<open>match_state\<close> gives the captured digits, \<open>match[1]\<close>.
  \<open>parseInt(digits, 10)\<close> is the double nearest to the integer the digits denote.
\<close>

definition is_digit :: "char \<Rightarrow> bool" where
  "is_digit c = (c \<in> set ''0123456789'')"

definition digit_value :: "char \<Rightarrow> nat" where
  "digit_value c = of_char c - 48"

definition decimal_value :: "string \<Rightarrow> nat" where
  "decimal_value ds = foldl (\<lambda>n c. 10 * n + digit_value c) 0 ds"

definition match_state :: "string \<Rightarrow> string option" where
  "match_state className =
     (let digits = drop 6 className
      in if take 6 className = ''state-'' \<and> digits \<noteq> [] \<and> list_all is_digit digits
         then Some digits else None)"

definition parseInt10 :: "string \<Rightarrow> jsnum" where
  "parseInt10 digits = to_double (real (decimal_value digits))"

text \<open>
  The revised controller: the loop keeps \<open>(maxState, maxNum)\<close>, starting from
  \<open>(null, -1)\<close>.
\<close>

fun extractStateNumber_loop ::
  "string list \<Rightarrow> jsnum option \<times> jsnum \<Rightarrow> jsnum option \<times> jsnum" where
  "extractStateNumber_loop [] acc = acc"
| "extractStateNumber_loop (className # rest) (maxState, maxNum) =
     (case match_state className of
        Some digits \<Rightarrow>
          (let num = parseInt10 digits
           in if js_less maxNum num then extractStateNumber_loop rest (Some num, num)
              else extractStateNumber_loop rest (maxState, maxNum))
      | None \<Rightarrow> extractStateNumber_loop rest (maxState, maxNum))"

definition extractStateNumber :: "string list \<Rightarrow> jsnum option" where
  "extractStateNumber classList =
     (case extractStateNumber_loop classList (None, Num (- 1)) of
        (Some maxState, maxNum) \<Rightarrow> Some (js_max (Num 0) (js_sub maxState (Num 1)))
      | (None, maxNum) \<Rightarrow> None)"

text \<open>The first revision of the controller returns at the first matching token.\<close>

fun extractStateNumber_first :: "string list \<Rightarrow> jsnum option" where
  "extractStateNumber_first [] = None"
| "extractStateNumber_first (className # rest) =
     (case match_state className of
        Some digits \<Rightarrow> Some (js_max (Num 0) (js_sub (parseInt10 digits) (Num 1)))
      | None \<Rightarrow> extractStateNumber_first rest)"

subsection \<open>Scroll lock\<close>

text \<open>
  The controller object (revised controller; the first revision has no content sections
  and its \<open>lockScroll\<close>, \<open>unlockScroll\<close> and \<open>scheduleScrollUnlock\<close> are the same
  text). \<open>imageUrls\<close>, \<open>scrollLockDuration\<close> and \<open>contentSectionSelector\<close> are
  fields of \<open>this.config\<close> (the last one records whether a selector is configured).
  Each call of \<open>lockScroll\<close> creates three new listener functions and a cleanup function
  that closes over them: the number in \<open>scrollUnlockCleanup\<close> names the call that
  created them. Three fields are the page around the object: \<open>listeners\<close> are the
  listeners installed on \<open>window\<close> (event type, creating call), \<open>timers\<close> the pending
  timeouts whose callback is \<open>unlockScroll\<close> (identifier, delay in milliseconds; identifiers
  are positive), \<open>sectionDisplay\<close> the \<open>display\<close> of the elements the selector
  matches (\<open>True\<close> for \<open>block\<close>). \<open>lockCalls\<close> and \<open>timerCalls\<close> count the
  closures and timers created so far.
\<close>

record controller =
  imageUrls :: "string list"
  scrollLockDuration :: real
  contentSectionSelector :: bool
  engine :: "engine option"
  scrollLocked :: bool
  scrollUnlockTimer :: "nat option"
  scrollUnlockCleanup :: "nat option"
  currentState :: "int option"
  isInitializing :: bool
  listeners :: "(string \<times> nat) list"
  timers :: "(nat \<times> real) list"
  sectionDisplay :: "bool list"
  lockCalls :: nat
  timerCalls :: nat
  warnings :: "string list"

text \<open>\<open>config.scrollLockDuration || 1200\<close> of the constructor.\<close>

definition configScrollLockDuration :: "real option \<Rightarrow> real" where
  "configScrollLockDuration given =
     (case given of None \<Rightarrow> 1200 | Some d \<Rightarrow> if d = 0 then 1200 else d)"

definition lockScroll :: "controller \<Rightarrow> controller" where
  "lockScroll c =
     (if scrollLocked c then c
      else
        (let g = lockCalls c
         in c\<lparr>scrollLocked := True,
              listeners := listeners c @ [(''wheel'', g), (''touchmove'', g), (''keydown'', g)],
              scrollUnlockCleanup := Some g,
              lockCalls := Suc g\<rparr>))"

text \<open>The cleanup function stored by the call \<open>g\<close> of \<open>lockScroll\<close>.\<close>

definition scrollUnlockCleanup_run :: "nat \<Rightarrow> controller \<Rightarrow> controller" where
  "scrollUnlockCleanup_run g c =
     c\<lparr>listeners := remove1 (''keydown'', g) (remove1 (''touchmove'', g)
                       (remove1 (''wheel'', g) (listeners c))),
       scrollLocked := False\<rparr>"

definition clearTimeout :: "nat \<Rightarrow> controller \<Rightarrow> controller" where
  "clearTimeout timer c = c\<lparr>timers := filter (\<lambda>p. fst p \<noteq> timer) (timers c)\<rparr>"

definition unlockScroll :: "controller \<Rightarrow> controller" where
  "unlockScroll c =
     (if \<not> scrollLocked c then c
      else
        (let c = (case scrollUnlockCleanup c of
                    Some g \<Rightarrow> (scrollUnlockCleanup_run g c)\<lparr>scrollUnlockCleanup := None\<rparr>
                  | None \<Rightarrow> c);
             c = (case scrollUnlockTimer c of
                    Some timer \<Rightarrow> (clearTimeout timer c)\<lparr>scrollUnlockTimer := None\<rparr>
                  | None \<Rightarrow> c)
         in c))"

definition scheduleScrollUnlock :: "controller \<Rightarrow> controller" where
  "scheduleScrollUnlock c =
     (let c = (case scrollUnlockTimer c of
                 Some timer \<Rightarrow> clearTimeout timer c
               | None \<Rightarrow> c);
          timer = Suc (timerCalls c)
      in c\<lparr>timers := timers c @ [(timer, scrollLockDuration c)],
           scrollUnlockTimer := Some timer,
           timerCalls := timer\<rparr>)"

text \<open>
  A pending timeout fires: it leaves the pending set and its callback, \<open>unlockScroll\<close>,
  runs. A cleared timeout is not pending and never fires.
\<close>

definition timerFires :: "nat \<Rightarrow> controller \<Rightarrow> controller" where
  "timerFires timer c =
     (if timer \<in> fst ` set (timers c)
      then unlockScroll (c\<lparr>timers := filter (\<lambda>p. fst p \<noteq> timer) (timers c)\<rparr>)
      else c)"

definition updateContentSections :: "int \<Rightarrow> controller \<Rightarrow> controller" where
  "updateContentSections stateIndex c =
     (if \<not> contentSectionSelector c then c
      else
        (let stateNumber = stateIndex + 1
         in c\<lparr>sectionDisplay :=
                map (\<lambda>index. int index + 1 = stateNumber) [0 ..< length (sectionDisplay c)]\<rparr>))"

text \<open>
  \<open>triggerTransition\<close>; \<open>now0\<close> and \<open>now1\<close> are the clock readings of the engine's
  \<open>transitionTo\<close>. An exception of the engine would leave the function before
  \<open>scheduleScrollUnlock\<close>.
\<close>

definition triggerTransition :: "real \<Rightarrow> real \<Rightarrow> int \<Rightarrow> controller \<Rightarrow> error + controller" where
  "triggerTransition now0 now1 index c =
     (case engine c of
        None \<Rightarrow> Inr (c\<lparr>warnings := warnings c @ [''Engine not initialized, cannot trigger transition'']\<rparr>)
      | Some e \<Rightarrow>
         (let c = updateContentSections index c;
              c = lockScroll c;
              targetIdx = max 0 (min index (int (length (imageUrls c)) - 1))
          in case transitionTo now0 now1 targetIdx e of
               Inl err \<Rightarrow> Inl err
             | Inr e' \<Rightarrow> Inr (scheduleScrollUnlock (c\<lparr>engine := Some e'\<rparr>))))"

text \<open>
  The completion callback that \<open>initEngine\<close> of the revised controller passes to
  \<open>setImages\<close> as a second argument (\<open>this.engine\<close> is set when it is created).
\<close>

definition initEngine_callback :: "int \<Rightarrow> engine \<Rightarrow> engine" where
  "initEngine_callback initialStateIndex e =
     (if initialStateIndex \<noteq> 0 then setInitialImage initialStateIndex e else e)"

section \<open>Predicates used in the proofs\<close>

text \<open>
  \<open>index_in_range s i\<close>: \<open>i\<close> is a position of the image sequence.
  \<open>frame_ok s\<close>: a requested animation frame finds a material and a recorded target
  that is a position of the image sequence.
\<close>

definition index_in_range :: "engine \<Rightarrow> int \<Rightarrow> bool" where
  "index_in_range s i = (0 \<le> i \<and> i \<le> int (length (images s)) - 1)"

definition frame_ok :: "engine \<Rightarrow> bool" where
  "frame_ok s =
     (if frameRequested s
      then material s \<noteq> None \<and>
           (case targetIndex s of Some target \<Rightarrow> index_in_range s target | None \<Rightarrow> False)
      else True)"

text \<open>
  \<open>lock_ok c\<close>: the listeners on \<open>window\<close> are those of the stored cleanup
  function while the lock is set and none otherwise, and the only timeout that can be
  pending is the one recorded in \<open>scrollUnlockTimer\<close>.
\<close>

definition lock_ok :: "controller \<Rightarrow> bool" where
  "lock_ok c =
     ((if scrollLocked c
       then (case scrollUnlockCleanup c of
               Some g \<Rightarrow> listeners c = [(''wheel'', g), (''touchmove'', g), (''keydown'', g)]
             | None \<Rightarrow> False)
       else listeners c = []) \<and>
      (case scrollUnlockTimer c of
         Some timer \<Rightarrow> list_all (\<lambda>p. fst p = timer) (timers c) \<and> length (timers c) \<le> 1
       | None \<Rightarrow> timers c = []))"

section \<open>Example states\<close>

text \<open>
  An engine with three images and one displacement map, all loaded, on an implementation
  whose \<open>Math.pow(x, 3)\<close> is the correctly rounded cube: before the material
  exists (\<open>demo_loading\<close>), after \<open>onTexturesLoaded\<close> has created it
  (\<open>demo_engine\<close>), during a transition from image 0 to image 1 that started at
  clock reading 1000 (\<open>demo_inflight\<close>), and during the same transition after
  \<open>setTransitionSpeed(1000)\<close> (\<open>demo_slow\<close>).
\<close>

definition demo_texture :: "string \<Rightarrow> texture" where
  "demo_texture url = \<lparr>tex_src = url, tex_image = Some (1920, 1080)\<rparr>"

definition demo_loading :: engine where
  "demo_loading = \<lparr>
     host_pow3 = (\<lambda>b. to_double (b ^ 3)),
     parentSize = (1280, 720),
     images = [''a.jpg'', ''b.jpg'', ''c.jpg''],
     displacementImages = [''d.png''],
     intensity = fl 0.4,
     transitionSpeed = fl 1.2,
     onImageChange = True,
     currentIndex = 0,
     isTransitioning = False,
     this_progress = 0,
     startTime = None,
     targetIndex = None,
     textures = [Some (demo_texture ''a.jpg''), Some (demo_texture ''b.jpg''),
                 Some (demo_texture ''c.jpg'')],
     textureResolutions = [Some (1920, 1080), Some (1920, 1080), Some (1920, 1080)],
     displacementTextures = [Some (demo_texture ''d.png'')],
     displacementTexture = Some (demo_texture ''d.png''),
     material = None,
     mesh = None,
     pendingInitialIndex = None,
     frameRequested = False,
     console = [],
     imageChangeCalls = [],
     disposed = []\<rparr>"

definition demo_uniforms :: uniforms where
  "demo_uniforms = \<lparr>
     texture1 = Some (demo_texture ''a.jpg''),
     texture2 = Some (demo_texture ''b.jpg''),
     displacement = Some (demo_texture ''d.png''),
     progress = Num 0,
     u_intensity = fl 0.4,
     resolution = (1280, 720),
     texRes1 = (1920, 1080),
     texRes2 = (1920, 1080)\<rparr>"

definition demo_engine :: engine where
  "demo_engine = demo_loading\<lparr>material := Some demo_uniforms,
     mesh := Some (js_mul (Num 1280) (computeOverscanFactor demo_loading),
                   js_mul (Num 720) (computeOverscanFactor demo_loading))\<rparr>"

definition demo_inflight :: engine where
  "demo_inflight = demo_engine\<lparr>isTransitioning := True, startTime := Some 1000,
     targetIndex := Some 1, imageChangeCalls := [1], frameRequested := True\<rparr>"

definition demo_slow :: engine where
  "demo_slow = setTransitionSpeed 1000 demo_inflight"

text \<open>
  A controller as its constructor and \<open>setup\<close> leave it, with no scroll-lock
  duration configured, three content sections and the example engine.
\<close>

definition demo_controller :: controller where
  "demo_controller = \<lparr>
     imageUrls = [''a.jpg'', ''b.jpg'', ''c.jpg''],
     scrollLockDuration = configScrollLockDuration None,
     contentSectionSelector = True,
     engine = Some demo_engine,
     scrollLocked = False,
     scrollUnlockTimer = None,
     scrollUnlockCleanup = None,
     currentState = Some 0,
     isInitializing = False,
     listeners = [],
     timers = [],
     sectionDisplay = [True, False, False],
     lockCalls = 0,
     timerCalls = 0,
     warnings = []\<rparr>"

text \<open>The three loads of a batch, all successful, in order.\<close>

definition demo_outcomes :: "(nat \<times> texture option) list" where
  "demo_outcomes = [(0, Some (demo_texture ''a.jpg'')), (1, Some (demo_texture ''b.jpg'')),
     (2, Some (demo_texture ''c.jpg''))]"

section \<open>Properties\<close>

subsection \<open>Double arithmetic\<close>

text \<open>
  The value of \<open>fl\<close> in a given binade, its exactness on the integers up to \<open>2^53\<close>
  and the rounding error of one operation.
\<close>

lemma binade_eq:
  assumes "2 powi e \<le> \<bar>x\<bar>" and "\<bar>x\<bar> < 2 powi (e + 1)" and "- 1022 \<le> e"
  shows "binade x = e"
proof -
  have pos: "0 < \<bar>x\<bar>" using assms(1) by (smt (verit) zero_less_power_int)
  have a: "(2::real) powr (real_of_int e) = 2 powi e"
    by (rule powr_real_of_int') simp_all
  have "(2::real) powr (real_of_int (e + 1)) = 2 powi (e + 1)"
    by (rule powr_real_of_int') simp_all
  then have b: "(2::real) powr (real_of_int e + 1) = 2 powi (e + 1)"
    by simp
  have "\<lfloor>log 2 \<bar>x\<bar>\<rfloor> = e"
    using assms(1,2) pos by (simp add: floor_log_eq_powr_iff a b)
  then show ?thesis using assms(3) by (simp add: binade_def)
qed

lemma fl_eval:
  assumes "2 powi e \<le> \<bar>x\<bar>" and "\<bar>x\<bar> < 2 powi (e + 1)" and "- 1022 \<le> e"
  shows "fl x = of_int (round_even (x / 2 powi (e - 52))) * 2 powi (e - 52)"
proof -
  have "x \<noteq> 0" using assms(1) by (smt (verit) zero_less_power_int abs_zero)
  then show ?thesis using binade_eq [OF assms] by (simp add: fl_def)
qed

lemma fl_zero: "fl 0 = 0"
  by (simp add: fl_def)

lemma fl_one: "fl 1 = 1"
  by (subst fl_eval [where e = 0]) (simp_all add: round_even_def)

lemma to_double_zero: "to_double 0 = Num 0"
  by (simp add: to_double_def fl_zero)

lemma to_double_one: "to_double 1 = Num 1"
  by (simp add: to_double_def fl_one)

lemma round_even_ge: "of_int n \<le> y \<Longrightarrow> n \<le> round_even y"
proof -
  assume "of_int n \<le> y"
  then have "n \<le> \<lfloor>y\<rfloor>" by (simp add: le_floor_iff)
  moreover have "\<lfloor>y\<rfloor> \<le> round_even y"
    by (simp add: round_even_def Let_def)
  ultimately show ?thesis by simp
qed

lemma one_le_fl:
  assumes "1 \<le> x"
  shows "1 \<le> fl x"
proof -
  have pos: "0 < x" using assms by simp
  define b where "b = \<lfloor>log 2 x\<rfloor>"
  have b0: "0 \<le> b"
    unfolding b_def using assms by simp
  have "\<bar>x\<bar> = x" using pos by simp
  then have bin: "binade x = b"
    using b0 unfolding binade_def b_def by simp
  have "2 powr (of_int b) \<le> x"
    unfolding b_def using pos by (simp add: powr_le_iff)
  moreover have "(2::real) powr (of_int b) = 2 powi b"
    by (rule powr_real_of_int') simp_all
  ultimately have lo: "2 powi b \<le> x" by simp
  define c :: real where "c = 2 powi (b - 52)"
  have p: "0 < c" by (simp add: c_def)
  have "(2::real) powi (52 + (b - 52)) = 2 powi 52 * 2 powi (b - 52)"
    by (rule power_int_add) simp
  then have sp: "(2::real) powi b = 2 ^ 52 * c"
    by (simp add: c_def)
  have "2 ^ 52 \<le> x / c"
    using lo p sp by (simp add: pos_le_divide_eq)
  then have "of_int (2 ^ 52) \<le> x / c" by simp
  then have "2 ^ 52 \<le> round_even (x / c)" by (rule round_even_ge)
  then have "of_int (2 ^ 52) \<le> (of_int (round_even (x / c)) :: real)"
    by (simp only: of_int_le_iff)
  then have "(2::real) ^ 52 \<le> of_int (round_even (x / c))" by simp
  then have B: "2 ^ 52 * c \<le> of_int (round_even (x / c)) * c"
    using p by (intro mult_right_mono) simp_all
  have F: "fl x = of_int (round_even (x / c)) * c"
    using pos bin by (simp add: fl_def c_def)
  have "(1::real) \<le> 2 powi b"
    using b0 by (simp add: one_le_power_int)
  then have C: "1 \<le> 2 ^ 52 * c" by (simp only: sp)
  from B C have "1 \<le> of_int (round_even (x / c)) * c" by linarith
  then show ?thesis by (simp only: F)
qed

lemma js_min_to_double_ge_one:
  assumes "1 \<le> x"
  shows "js_min (to_double x) (Num 1) = Num 1"
proof -
  from one_le_fl [OF assms] have "1 \<le> fl x" .
  then show ?thesis by (auto simp: to_double_def Let_def)
qed

lemma easeOut_one: "easeOut host (Num 1) = Num 1"
  by (simp add: easeOut_def js_sub_def Math_pow3_def to_double_zero to_double_one)

lemma to_double_Num: "\<bar>fl x\<bar> < 2 ^ 1024 \<Longrightarrow> to_double x = Num (fl x)"
  by (auto simp: to_double_def Let_def)

lemma two_pow_big: "(2::real) \<le> 2 ^ 1024"
  using power_increasing [of 1 1024 "2::real"] by simp

lemma to_double_small: "\<bar>fl x\<bar> < 2 \<Longrightarrow> to_double x = Num (fl x)"
  using two_pow_big by (intro to_double_Num) linarith

lemma to_double_eval:
  assumes "2 powi e \<le> \<bar>x\<bar>" and "\<bar>x\<bar> < 2 powi (e + 1)" and "- 1022 \<le> e"
    and "of_int (round_even (x / 2 powi (e - 52))) * 2 powi (e - 52) = r"
    and "\<bar>r\<bar> < 2 ^ 1024"
  shows "to_double x = Num r"
proof -
  have "fl x = r" using fl_eval [OF assms(1,2,3)] assms(4) by simp
  then show ?thesis using assms(5) by (simp add: to_double_Num)
qed

lemma to_double_values:
  "to_double 600 = Num 600"
  "to_double (- 600) = Num (- 600)"
  "to_double 1200 = Num 1200"
  "to_double (3 / 5) = Num (5404319552844595 / 2 ^ 53)"
  "to_double (- (3 / 5)) = Num (- (5404319552844595 / 2 ^ 53))"
  "to_double (6 / 5) = Num (5404319552844595 / 2 ^ 52)"
  "to_double (1 / 2) = Num (1 / 2)"
  "to_double (- (1 / 2)) = Num (- (1 / 2))"
  "to_double (1 / 8) = Num (1 / 8)"
  "to_double (7 / 8) = Num (7 / 8)"
  "to_double (3 / 2) = Num (3 / 2)"
  "to_double (27 / 8) = Num (27 / 8)"
  "to_double (- (19 / 8)) = Num (- (19 / 8))"
  by (rule to_double_eval [where e = 9], simp_all add: round_even_def)
     (rule to_double_eval [where e = 9], simp_all add: round_even_def,
      rule to_double_eval [where e = 10], simp_all add: round_even_def,
      rule to_double_eval [where e = "- 1"], simp_all add: round_even_def,
      rule to_double_eval [where e = "- 1"], simp_all add: round_even_def,
      rule to_double_eval [where e = 0], simp_all add: round_even_def,
      rule to_double_eval [where e = "- 1"], simp_all add: round_even_def,
      rule to_double_eval [where e = "- 1"], simp_all add: round_even_def,
      rule to_double_eval [where e = "- 3"], simp_all add: round_even_def,
      rule to_double_eval [where e = "- 1"], simp_all add: round_even_def,
      rule to_double_eval [where e = 0], simp_all add: round_even_def,
      rule to_double_eval [where e = 1], simp_all add: round_even_def,
      rule to_double_eval [where e = 1], simp_all add: round_even_def)

lemma to_double_minus_one: "to_double (- 1) = Num (- 1)"
  by (rule to_double_eval [where e = 0]) (simp_all add: round_even_def)

lemma round_even_of_int: "round_even (of_int z) = z"
  by (simp add: round_even_def)

lemma fl_nat_exact:
  assumes "n \<le> 2 ^ 53"
  shows "fl (real n) = real n"
proof (cases "n = 0")
  case True
  then show ?thesis by (simp add: fl_zero)
next
  case False
  define x where "x = real n"
  have one: "1 \<le> x" using False by (simp add: x_def)
  have pos: "0 < x" using one by simp
  have up: "x \<le> 2 ^ 53"
  proof -
    have "real n \<le> real (2 ^ 53)" using assms by (simp only: of_nat_le_iff)
    then show ?thesis by (simp add: x_def)
  qed
  define b where "b = \<lfloor>log 2 x\<rfloor>"
  have b0: "0 \<le> b" unfolding b_def using one by simp
  have "\<bar>x\<bar> = x" using pos by simp
  then have bin: "binade x = b"
    using b0 unfolding binade_def b_def by simp
  have "2 powr (of_int b) \<le> x"
    unfolding b_def using pos by (simp add: powr_le_iff)
  moreover have "(2::real) powr (of_int b) = 2 powi b"
    by (rule powr_real_of_int') simp_all
  ultimately have lo: "2 powi b \<le> x" by simp
  have "log 2 x \<le> 53"
    using pos up by (simp add: log_le_iff)
  then have b53: "b \<le> 53" unfolding b_def by (simp add: floor_le_iff)
  define c :: real where "c = 2 powi (b - 52)"
  have p: "0 < c" by (simp add: c_def)
  have "\<exists>z. x / c = of_int z"
  proof (cases "b \<le> 52")
    case True
    have "(2::real) powi ((b - 52) + (52 - b)) = 2 powi (b - 52) * 2 powi (52 - b)"
      by (rule power_int_add) simp
    then have "c * 2 powi (52 - b) = 1" by (simp add: c_def)
    moreover have "(2::real) powi (52 - b) = 2 ^ nat (52 - b)"
      using True by (simp add: power_int_def)
    ultimately have "c * 2 ^ nat (52 - b) = 1" by simp
    then have "x / c = x * 2 ^ nat (52 - b)"
      using p by (simp add: field_simps)
    also have "\<dots> = of_int (int n * 2 ^ nat (52 - b))"
      by (simp add: x_def)
    finally show ?thesis by blast
  next
    case False
    with b53 have b: "b = 53" by simp
    from lo have "2 ^ 53 \<le> x" unfolding b by simp
    with up have x: "x = 2 ^ 53" by simp
    have "c = 2" unfolding c_def b by simp
    then have "x / c = of_int (2 ^ 52)" unfolding x by simp
    then show ?thesis by blast
  qed
  then obtain z where z: "x / c = of_int z" by blast
  have "fl x = of_int (round_even (x / c)) * c"
    using pos bin by (simp add: fl_def c_def)
  also have "\<dots> = x / c * c"
    unfolding z round_even_of_int by (rule refl)
  also have "\<dots> = x" using p by simp
  finally show ?thesis unfolding x_def .
qed

lemma to_double_nat_exact:
  assumes "n \<le> 2 ^ 53"
  shows "to_double (real n) = Num (real n)"
proof -
  have f: "fl (real n) = real n" using assms by (rule fl_nat_exact)
  have "real n \<le> real (2 ^ 53)" using assms by (simp only: of_nat_le_iff)
  then have "real n \<le> 2 ^ 53" by simp
  moreover have "(2::real) ^ 53 < 2 ^ 1024"
    by (rule power_strict_increasing) simp_all
  ultimately have "\<bar>fl (real n)\<bar> < 2 ^ 1024" unfolding f by simp
  then show ?thesis unfolding to_double_Num [OF \<open>\<bar>fl (real n)\<bar> < 2 ^ 1024\<close>] f by simp
qed

lemma round_even_error: "\<bar>of_int (round_even y) - y\<bar> \<le> 1 / 2"
proof -
  have "of_int \<lfloor>y\<rfloor> \<le> y" "y < of_int \<lfloor>y\<rfloor> + 1" by linarith+
  then show ?thesis
    by (auto simp: round_even_def Let_def)
qed

lemma binade_le:
  assumes "\<bar>x\<bar> < 2 powi (e + 1)" and "- 1022 \<le> e" and "x \<noteq> 0"
  shows "binade x \<le> e"
proof -
  have pos: "0 < \<bar>x\<bar>" using assms(3) by simp
  have "(2::real) powr (real_of_int (e + 1)) = 2 powi (e + 1)"
    by (rule powr_real_of_int') simp_all
  then have "\<bar>x\<bar> < 2 powr (real_of_int (e + 1))" using assms(1) by simp
  then have "log 2 \<bar>x\<bar> < real_of_int (e + 1)"
    using pos by (simp add: log_less_iff)
  then have "\<lfloor>log 2 \<bar>x\<bar>\<rfloor> < e + 1" by linarith
  then show ?thesis using assms(2) by (simp add: binade_def)
qed

lemma fl_error:
  assumes "\<bar>x\<bar> < 2 powi (e + 1)" and "- 1022 \<le> e"
  shows "\<bar>fl x - x\<bar> \<le> 2 powi (e - 53)"
proof (cases "x = 0")
  case True
  then show ?thesis by (simp add: fl_zero)
next
  case False
  define b where "b = binade x"
  define c :: real where "c = 2 powi (b - 52)"
  have p: "0 < c" by (simp add: c_def)
  have be: "b \<le> e" unfolding b_def using assms False by (rule binade_le)
  have "fl x = of_int (round_even (x / c)) * c"
    using False by (simp add: fl_def c_def b_def)
  then have "fl x - x = (of_int (round_even (x / c)) - x / c) * c"
    using p by (simp add: field_simps)
  then have "\<bar>fl x - x\<bar> = \<bar>of_int (round_even (x / c)) - x / c\<bar> * c"
    using p by (simp add: abs_mult)
  also have "\<dots> \<le> 1 / 2 * c"
    using round_even_error [of "x / c"] p by (intro mult_right_mono) simp_all
  also have "1 / 2 * c = 2 powi (b - 53)"
  proof -
    have "(2::real) powi ((b - 53) + 1) = 2 powi (b - 53) * 2 powi 1"
      by (rule power_int_add) simp
    then show ?thesis by (simp add: c_def)
  qed
  also have "\<dots> \<le> 2 powi (e - 53)"
    using be by (intro power_int_increasing) simp_all
  finally show ?thesis .
qed

subsection \<open>Pure helpers\<close>

text \<open>
  C7. For every integer target index, \<open>getDisplacementIndex\<close> returns 0 on 0..2, 1 on
  3..6, 2 on 7..10 and 0 on every other integer (11, negative indices).
\<close>

theorem getDisplacementIndex_buckets:
  "(0 \<le> i \<and> i \<le> 2 \<longrightarrow> getDisplacementIndex i = 0) \<and>
   (3 \<le> i \<and> i \<le> 6 \<longrightarrow> getDisplacementIndex i = 1) \<and>
   (7 \<le> i \<and> i \<le> 10 \<longrightarrow> getDisplacementIndex i = 2) \<and>
   (i < 0 \<or> 10 < i \<longrightarrow> getDisplacementIndex i = 0)"
  by (simp add: getDisplacementIndex_def)

theorem getDisplacementIndex_buckets_witness:
  "getDisplacementIndex 1 = 0 \<and> getDisplacementIndex 4 = 1 \<and>
   getDisplacementIndex 9 = 2 \<and> getDisplacementIndex 11 = 0 \<and>
   getDisplacementIndex (- 3) = 0"
  using getDisplacementIndex_buckets [of 1] getDisplacementIndex_buckets [of 4]
    getDisplacementIndex_buckets [of 9] getDisplacementIndex_buckets [of 11]
    getDisplacementIndex_buckets [of "- 3"]
  by simp

lemma fl_0_4: "fl 0.4 = 3602879701896397 / 2 ^ 53"
  by (subst fl_eval [where e = "- 2"]) (simp_all add: round_even_def)

lemma fl_1_2: "fl 1.2 = 5404319552844595 / 2 ^ 52"
  by (subst fl_eval [where e = 0]) (simp_all add: round_even_def)

lemma fl_0_6: "fl 0.6 = 5404319552844595 / 2 ^ 53"
  by (subst fl_eval [where e = "- 1"]) (simp_all add: round_even_def)

lemma fl_1_05: "fl 1.05 = 4728779608739021 / 2 ^ 52"
  by (subst fl_eval [where e = 0]) (simp_all add: round_even_def)

lemma fl_1_53: "fl 1.53 = 6890507429876859 / 2 ^ 52"
  by (subst fl_eval [where e = 0]) (simp_all add: round_even_def)

lemma fl_0_3: "fl 0.3 = 5404319552844595 / 2 ^ 54"
  by (subst fl_eval [where e = "- 2"]) (simp_all add: round_even_def)

lemma fl_prod_0_4: "fl (3602879701896397 / 2 ^ 53 * (5404319552844595 / 2 ^ 52)) = 1080863910568919 / 2 ^ 51"
  by (subst fl_eval [where e = "- 2"]) (simp_all add: round_even_def)

lemma fl_sum_0_4: "fl (4728779608739021 / 2 ^ 52 + 1080863910568919 / 2 ^ 51) = 6890507429876859 / 2 ^ 52"
  by (subst fl_eval [where e = 0]) (simp_all add: round_even_def)

lemma fl_prod_0_3: "fl (5404319552844595 / 2 ^ 54 * (5404319552844595 / 2 ^ 52)) = 3242591731706757 / 2 ^ 53"
  by (subst fl_eval [where e = "- 2"]) (simp_all add: round_even_def)

lemma fl_sum_0_3: "fl (4728779608739021 / 2 ^ 52 + 3242591731706757 / 2 ^ 53) = 396879717162025 / 2 ^ 48"
  by (subst fl_eval [where e = 0]) (simp_all add: round_even_def)

lemma overscan_0_4: "computeOverscanFactor (s\<lparr>intensity := fl 0.4\<rparr>) = Num (fl 1.53)"
proof -
  have m: "js_mul (Num (fl 0.4)) (Num (fl 1.2)) = Num (1080863910568919 / 2 ^ 51)"
    unfolding js_mul.simps fl_0_4 fl_1_2
    by (subst to_double_small) (simp_all only: fl_prod_0_4, simp_all)
  have a: "js_add (Num (fl 1.05)) (Num (1080863910568919 / 2 ^ 51)) = Num (fl 1.53)"
    unfolding js_add.simps fl_1_05 fl_1_53
    by (subst to_double_small) (simp_all only: fl_sum_0_4, simp_all)
  have mi: "js_min (Num (fl 0.6)) (Num (1080863910568919 / 2 ^ 51)) = Num (1080863910568919 / 2 ^ 51)"
    unfolding fl_0_6 by simp
  have i: "intensity (s\<lparr>intensity := fl 0.4\<rparr>) = fl 0.4" by simp
  show ?thesis
    unfolding computeOverscanFactor_def Let_def i m mi a by (rule refl)
qed

lemma overscan_0_3:
  "computeOverscanFactor (s\<lparr>intensity := fl 0.3\<rparr>) = Num (396879717162025 / 2 ^ 48)"
proof -
  have m: "js_mul (Num (fl 0.3)) (Num (fl 1.2)) = Num (3242591731706757 / 2 ^ 53)"
    unfolding js_mul.simps fl_0_3 fl_1_2
    by (subst to_double_small) (simp_all only: fl_prod_0_3, simp_all)
  have a: "js_add (Num (fl 1.05)) (Num (3242591731706757 / 2 ^ 53)) = Num (396879717162025 / 2 ^ 48)"
    unfolding js_add.simps fl_1_05
    by (subst to_double_small) (simp_all only: fl_sum_0_3, simp_all)
  have mi: "js_min (Num (fl 0.6)) (Num (3242591731706757 / 2 ^ 53)) = Num (3242591731706757 / 2 ^ 53)"
    unfolding fl_0_6 by simp
  have i: "intensity (s\<lparr>intensity := fl 0.3\<rparr>) = fl 0.3" by simp
  show ?thesis
    unfolding computeOverscanFactor_def Let_def i m mi a by (rule refl)
qed

lemma fl_1_41: "fl 1.41 = 6350075474592399 / 2 ^ 52"
  by (subst fl_eval [where e = 0]) (simp_all add: round_even_def)

lemma overscan_0_3_not_1_41: "(396879717162025 / 2 ^ 48 :: real) \<noteq> fl 1.41"
  unfolding fl_1_41 by simp

lemma overscan_error:
  assumes "0 \<le> v" and "v \<le> 1"
  shows "\<exists>r. computeOverscanFactor (s\<lparr>intensity := v\<rparr>) = Num r \<and>
             \<bar>r - (1.05 + min 0.6 (v * 1.2))\<bar> \<le> 2 powi (- 51)"
proof -
  define u :: real where "u = 2 powi (- 53)"
  have u: "u = 1 / 2 ^ 53" by (simp add: u_def power_int_minus field_simps)
  have c12: "\<bar>fl 1.2 - 1.2\<bar> \<le> u" "0 \<le> fl 1.2" "fl 1.2 < 3 / 2"
    unfolding fl_1_2 u by simp_all
  have c06: "\<bar>fl 0.6 - 0.6\<bar> \<le> u" "fl 0.6 < 5 / 8"
    unfolding fl_0_6 u by simp_all
  have c105: "\<bar>fl 1.05 - 1.05\<bar> \<le> u" "1 < fl 1.05" "fl 1.05 < 9 / 8"
    unfolding fl_1_05 u by simp_all
  define q where "q = v * fl 1.2"
  have q0: "0 \<le> q" unfolding q_def using assms(1) c12(2) by simp
  have "q \<le> 1 * fl 1.2" unfolding q_def using assms(2) c12(2) by (intro mult_right_mono)
  then have q2: "q < 3 / 2" using c12(3) by simp
  have "q - v * 1.2 = v * (fl 1.2 - 1.2)" by (simp add: q_def algebra_simps)
  then have "\<bar>q - v * 1.2\<bar> = v * \<bar>fl 1.2 - 1.2\<bar>"
    using assms(1) by (simp add: abs_mult)
  also have "\<dots> \<le> 1 * u"
    using assms c12(1) by (intro mult_mono) simp_all
  finally have qe: "\<bar>q - v * 1.2\<bar> \<le> u" by simp
  define p where "p = fl q"
  have "\<bar>q\<bar> < 2 powi (0 + 1)" using q0 q2 by simp
  then have "\<bar>fl q - q\<bar> \<le> 2 powi (0 - 53)" by (rule fl_error) simp
  then have pe: "\<bar>p - q\<bar> \<le> u" by (simp add: p_def u_def)
  have us: "u < 1 / 8" unfolding u by simp
  have pb: "\<bar>p\<bar> < 2" using pe q0 q2 us by linarith
  have "\<bar>fl q\<bar> < 2 ^ 1024" using pb two_pow_big unfolding p_def by linarith
  then have mul: "js_mul (Num v) (Num (fl 1.2)) = Num p"
    unfolding js_mul.simps q_def [symmetric] p_def by (rule to_double_Num)
  define x where "x = min (fl 0.6) p"
  have xe: "\<bar>x - min 0.6 (v * 1.2)\<bar> \<le> 2 * u"
    unfolding x_def using c06(1) pe qe by (auto simp: min_def abs_if split: if_splits)
  have xb: "- (1 / 8) < x" "x < 5 / 8"
    unfolding x_def using c06(2) c06(1) pe q0 us by (auto simp: min_def abs_if split: if_splits)
  define y where "y = fl 1.05 + x"
  have yb: "0 < y" "y < 2" unfolding y_def using xb c105 by simp_all
  then have "\<bar>y\<bar> < 2 powi (0 + 1)" by simp
  then have "\<bar>fl y - y\<bar> \<le> 2 powi (0 - 53)" by (rule fl_error) simp
  then have re: "\<bar>fl y - y\<bar> \<le> u" by (simp add: u_def)
  have "\<bar>fl y\<bar> < 3" using re yb us by linarith
  moreover have "(4::real) \<le> 2 ^ 1024"
    using power_increasing [of 2 1024 "2::real"] by simp
  ultimately have "\<bar>fl y\<bar> < 2 ^ 1024" by linarith
  then have add: "js_add (Num (fl 1.05)) (Num x) = Num (fl y)"
    unfolding js_add.simps y_def by (rule to_double_Num)
  have i: "intensity (s\<lparr>intensity := v\<rparr>) = v" by simp
  have "computeOverscanFactor (s\<lparr>intensity := v\<rparr>) =
      js_add (Num (fl 1.05)) (js_min (Num (fl 0.6)) (js_mul (Num v) (Num (fl 1.2))))"
    unfolding computeOverscanFactor_def Let_def i by (rule refl)
  also have "\<dots> = Num (fl y)"
    unfolding mul js_min.simps x_def [symmetric] add by (rule refl)
  finally have r: "computeOverscanFactor (s\<lparr>intensity := v\<rparr>) = Num (fl y)" .
  have "\<bar>fl y - (1.05 + min 0.6 (v * 1.2))\<bar> \<le> 4 * u"
    using re xe c105(1) unfolding y_def by linarith
  also have "4 * u = 2 powi (- 51)"
    unfolding u by (simp add: power_int_minus field_simps)
  finally have "\<bar>fl y - (1.05 + min 0.6 (v * 1.2))\<bar> \<le> 2 powi (- 51)" .
  with r show ?thesis by blast
qed

text \<open>
  C8. For every configured intensity \<open>v\<close>, \<open>computeOverscanFactor\<close> returns
  \<open>1.05 + Math.min(0.6, v * 1.2)\<close> as double arithmetic evaluates it: the constants are
  the doubles nearest to their decimal literals, the product and the sum are rounded to
  the nearest double. For \<open>0 \<le> v \<le> 1\<close> the returned double differs from the real
  number \<open>1.05 + min(0.6, v * 1.2)\<close> by at most \<open>2^-51\<close>. With intensity 0.4 the
  result is exactly the double 1.53. (With intensity 0.3 it is 1.4100000000000001, the
  double above 1.41: \<open>overscan_0_3\<close>, \<open>overscan_0_3_not_1_41\<close>.)
\<close>

theorem computeOverscanFactor_formula:
  "computeOverscanFactor (s\<lparr>intensity := v\<rparr>) =
     js_add (Num (fl 1.05)) (js_min (Num (fl 0.6)) (js_mul (Num v) (Num (fl 1.2)))) \<and>
   (0 \<le> v \<and> v \<le> 1 \<longrightarrow>
      (\<exists>r. computeOverscanFactor (s\<lparr>intensity := v\<rparr>) = Num r \<and>
           \<bar>r - (1.05 + min 0.6 (v * 1.2))\<bar> \<le> 2 powi (- 51))) \<and>
   computeOverscanFactor (s\<lparr>intensity := fl 0.4\<rparr>) = Num (fl 1.53)"
proof -
  have i: "intensity (s\<lparr>intensity := v\<rparr>) = v" by simp
  have "computeOverscanFactor (s\<lparr>intensity := v\<rparr>) =
      js_add (Num (fl 1.05)) (js_min (Num (fl 0.6)) (js_mul (Num v) (Num (fl 1.2))))"
    unfolding computeOverscanFactor_def Let_def i by (rule refl)
  with overscan_error [where v = v and s = s] overscan_0_4 [where s = s] show ?thesis by blast
qed

theorem computeOverscanFactor_formula_witness:
  "0 \<le> fl 0.3 \<and> fl 0.3 \<le> 1 \<and>
   computeOverscanFactor (demo_loading\<lparr>intensity := fl 0.3\<rparr>) = Num (396879717162025 / 2 ^ 48) \<and>
   \<bar>396879717162025 / 2 ^ 48 - (1.05 + min 0.6 (fl 0.3 * 1.2))\<bar> \<le> 2 powi (- 51)"
proof -
  have b: "0 \<le> fl 0.3" "fl 0.3 \<le> 1" unfolding fl_0_3 by simp_all
  with computeOverscanFactor_formula [where s = demo_loading and v = "fl 0.3"]
  obtain r where r: "computeOverscanFactor (demo_loading\<lparr>intensity := fl 0.3\<rparr>) = Num r"
    "\<bar>r - (1.05 + min 0.6 (fl 0.3 * 1.2))\<bar> \<le> 2 powi (- 51)"
    by blast
  from r(1) have "r = 396879717162025 / 2 ^ 48"
    unfolding overscan_0_3 by simp
  with r b overscan_0_3 [where s = demo_loading] show ?thesis by simp
qed

subsection \<open>The example states are states of the code\<close>

lemma demo_engine_created: "onTexturesLoaded demo_loading = demo_engine"
  by (simp add: onTexturesLoaded_def createMaterial_def createMesh_def demo_loading_def
      demo_engine_def demo_uniforms_def js_get_def or_else_def computeOverscanFactor_def
      default_res_def Let_def)

subsection \<open>Rejected transition requests\<close>

text \<open>
  C1. A call \<open>transitionTo(t)\<close> made while a transition is in flight, or with \<open>t\<close>
  equal to the current index, or with the texture at \<open>t\<close> not loaded, returns normally
  and changes nothing but the console: \<open>currentIndex\<close>, \<open>isTransitioning\<close>, the
  material with its progress value and texture bindings are the same, \<open>onImageChange\<close>
  is not called, and nothing is queued (no frame is requested, no target or pending
  index is recorded).
\<close>

theorem transitionTo_rejected_noop:
  assumes "isTransitioning s \<or> t = currentIndex s \<or> js_get (textures s) t = None"
  shows "\<exists>s'. transitionTo now0 now1 t s = Inr s' \<and> s' = s\<lparr>console := console s'\<rparr> \<and>
     currentIndex s' = currentIndex s \<and> isTransitioning s' = isTransitioning s \<and>
     material s' = material s \<and> imageChangeCalls s' = imageChangeCalls s \<and>
     frameRequested s' = frameRequested s \<and> targetIndex s' = targetIndex s \<and>
     startTime s' = startTime s \<and> pendingInitialIndex s' = pendingInitialIndex s"
proof (cases "isTransitioning s \<or> t = currentIndex s \<or> material s = None")
  case True
  then have "transitionTo now0 now1 t s = Inr s"
    by (simp add: transitionTo_def)
  then show ?thesis by simp
next
  case False
  with assms have "js_get (textures s) t = None" by blast
  with False have "transitionTo now0 now1 t s =
      Inr (s\<lparr>console := console s @ [''Target texture not loaded:'']\<rparr>)"
    by (auto simp: transitionTo_def)
  then show ?thesis by simp
qed

theorem transitionTo_rejected_noop_witness:
  "js_get (textures demo_engine) 7 = None \<and> isTransitioning demo_inflight \<and>
   (\<exists>s'. transitionTo 5000 5000 7 demo_engine = Inr s' \<and>
      s' = demo_engine\<lparr>console := console s'\<rparr> \<and> imageChangeCalls s' = []) \<and>
   (\<exists>s'. transitionTo 1500 1500 2 demo_inflight = Inr s' \<and>
      s' = demo_inflight\<lparr>console := console s'\<rparr> \<and> targetIndex s' = Some 1)"
proof -
  have a: "js_get (textures demo_engine) 7 = None"
    by (simp add: demo_engine_def demo_loading_def js_get_def)
  have b: "isTransitioning demo_inflight"
    by (simp add: demo_inflight_def)
  have c: "imageChangeCalls demo_engine = []"
    by (simp add: demo_engine_def demo_loading_def)
  have d: "targetIndex demo_inflight = Some 1"
    by (simp add: demo_inflight_def)
  from a have "isTransitioning demo_engine \<or> 7 = currentIndex demo_engine
      \<or> js_get (textures demo_engine) 7 = None" by simp
  from transitionTo_rejected_noop [OF this, of 5000 5000]
  have e: "\<exists>s'. transitionTo 5000 5000 7 demo_engine = Inr s' \<and>
      s' = demo_engine\<lparr>console := console s'\<rparr> \<and> imageChangeCalls s' = []"
    using c by auto
  from b have "isTransitioning demo_inflight \<or> 2 = currentIndex demo_inflight
      \<or> js_get (textures demo_inflight) 2 = None" by simp
  from transitionTo_rejected_noop [OF this, of 1500 1500]
  have f: "\<exists>s'. transitionTo 1500 1500 2 demo_inflight = Inr s' \<and>
      s' = demo_inflight\<lparr>console := console s'\<rparr> \<and> targetIndex s' = Some 1"
    using d by auto
  from a b e f show ?thesis by blast
qed

subsection \<open>The progress animation\<close>

lemma animateProgress_unfold:
  assumes m: "material s = Some u" and st: "startTime s = Some start"
    and t: "t = js_min (js_div (js_div (js_sub (Num now) (Num start)) (Num 1000))
                  (Num (transitionSpeed s))) (Num 1)"
    and e: "e = js_sub (Num 1) (Math_pow3 (host_pow3 s) (js_sub (Num 1) t))"
  shows "animateProgress now s =
     (if js_less e (Num 1)
      then Inr (s\<lparr>material := Some (u\<lparr>progress := e\<rparr>), frameRequested := True\<rparr>)
      else (case targetIndex s of
              Some target \<Rightarrow> Inr (completeTransition target (u\<lparr>progress := e\<rparr>) s)
            | None \<Rightarrow> Inl NonNumeric))"
  unfolding animateProgress_def Let_def easeOut_def m st option.case e t by (rule refl)

lemma elapsed_reaches_duration:
  assumes d: "0 < d" and x: "d \<le> x"
  shows "js_min (js_div (Num x) (Num d)) (Num 1) = Num 1"
proof -
  have "1 \<le> x / d" using d x by simp
  then have "js_min (to_double (x / d)) (Num 1) = Num 1" by (rule js_min_to_double_ge_one)
  then show ?thesis using d by simp
qed

text \<open>
  C4. During a transition, a frame at clock reading \<open>now\<close> computes
  \<open>t = Math.min(elapsed / duration, 1)\<close> with \<open>elapsed = (now - startTime) / 1000\<close>
  and the eased value \<open>e = 1 - Math.pow(1 - t, 3)\<close>, in double arithmetic. While
  \<open>e < 1\<close> it writes \<open>e\<close> into the progress uniform and requests the next frame.
  Otherwise it sets \<open>currentIndex\<close> to the target, clears \<open>isTransitioning\<close>, resets
  the progress uniform to 0 and binds the textures of \<open>currentIndex\<close> and of
  \<open>min(currentIndex + 1, lastIndex)\<close>, requesting no frame; this is the case whenever
  the duration is positive and the computed elapsed time has reached it: then \<open>t\<close> and
  \<open>e\<close> are exactly 1.
\<close>

theorem animateProgress_eased:
  assumes m: "material s = Some u" and st: "startTime s = Some start"
    and ti: "targetIndex s = Some target"
    and t: "t = js_min (js_div (js_div (js_sub (Num now) (Num start)) (Num 1000))
                  (Num (transitionSpeed s))) (Num 1)"
    and e: "e = js_sub (Num 1) (Math_pow3 (host_pow3 s) (js_sub (Num 1) t))"
  shows "(js_less e (Num 1) \<longrightarrow> animateProgress now s =
            Inr (s\<lparr>material := Some (u\<lparr>progress := e\<rparr>), frameRequested := True\<rparr>)) \<and>
         (\<not> js_less e (Num 1) \<longrightarrow>
            (\<exists>s' u'. animateProgress now s = Inr s' \<and> material s' = Some u' \<and>
               currentIndex s' = target \<and> \<not> isTransitioning s' \<and> progress u' = Num 0 \<and>
               texture1 u' = js_get (textures s) (currentIndex s') \<and>
               texture2 u' = js_get (textures s)
                  (min (currentIndex s' + 1) (int (length (images s)) - 1)) \<and>
               frameRequested s' = frameRequested s)) \<and>
         (0 < transitionSpeed s \<and>
          js_div (js_sub (Num now) (Num start)) (Num 1000) = Num x \<and>
          transitionSpeed s \<le> x \<longrightarrow> t = Num 1 \<and> e = Num 1 \<and> \<not> js_less e (Num 1))"
proof (intro conjI impI)
  assume "js_less e (Num 1)"
  then show "animateProgress now s =
      Inr (s\<lparr>material := Some (u\<lparr>progress := e\<rparr>), frameRequested := True\<rparr>)"
    using animateProgress_unfold [OF m st t e] by simp
next
  assume "\<not> js_less e (Num 1)"
  then have "animateProgress now s = Inr (completeTransition target (u\<lparr>progress := e\<rparr>) s)"
    using animateProgress_unfold [OF m st t e] ti by simp
  then show "\<exists>s' u'. animateProgress now s = Inr s' \<and> material s' = Some u' \<and>
               currentIndex s' = target \<and> \<not> isTransitioning s' \<and> progress u' = Num 0 \<and>
               texture1 u' = js_get (textures s) (currentIndex s') \<and>
               texture2 u' = js_get (textures s)
                  (min (currentIndex s' + 1) (int (length (images s)) - 1)) \<and>
               frameRequested s' = frameRequested s"
    by (simp add: completeTransition_def Let_def)
next
  assume a: "0 < transitionSpeed s \<and>
      js_div (js_sub (Num now) (Num start)) (Num 1000) = Num x \<and> transitionSpeed s \<le> x"
  then have "js_min (js_div (Num x) (Num (transitionSpeed s))) (Num 1) = Num 1"
    by (intro elapsed_reaches_duration) simp_all
  with a t show t1: "t = Num 1" by simp
  with e show e1: "e = Num 1"
    using easeOut_one [of "host_pow3 s"] by (simp add: easeOut_def)
  then show "\<not> js_less e (Num 1)" by simp
qed

lemma fl_6_5: "fl (6 / 5) = 5404319552844595 / 2 ^ 52"
  by (subst fl_eval [where e = 0]) (simp_all add: round_even_def)

lemma demo_inflight_fields:
  "material demo_inflight = Some demo_uniforms" "startTime demo_inflight = Some 1000"
  "targetIndex demo_inflight = Some 1"
  "transitionSpeed demo_inflight = 5404319552844595 / 2 ^ 52"
  "host_pow3 demo_inflight = (\<lambda>b. to_double (b ^ 3))"
  by (simp_all add: demo_inflight_def demo_engine_def demo_loading_def fl_6_5)

lemma demo_inflight_textures:
  "js_get (textures demo_inflight) 1 = Some (demo_texture ''b.jpg'')"
  "js_get (textures demo_inflight) (min (1 + 1) (int (length (images demo_inflight)) - 1))
     = Some (demo_texture ''c.jpg'')"
  by (simp_all add: demo_inflight_def demo_engine_def demo_loading_def js_get_def)

lemma demo_eased_1600:
  "js_min (js_div (js_div (js_sub (Num 1600) (Num 1000)) (Num 1000))
     (Num (transitionSpeed demo_inflight))) (Num 1) = Num (1 / 2)"
  "js_sub (Num 1) (Math_pow3 (host_pow3 demo_inflight) (js_sub (Num 1) (Num (1 / 2)))) = Num (7 / 8)"
  by (simp_all add: demo_inflight_fields js_sub_def Math_pow3_def to_double_values
      power3_eq_cube)

lemma demo_eased_400:
  "js_min (js_div (js_div (js_sub (Num 400) (Num 1000)) (Num 1000))
     (Num (transitionSpeed demo_inflight))) (Num 1) = Num (- (1 / 2))"
  "js_sub (Num 1) (Math_pow3 (host_pow3 demo_inflight) (js_sub (Num 1) (Num (- (1 / 2)))))
     = Num (- (19 / 8))"
  by (simp_all add: demo_inflight_fields js_sub_def Math_pow3_def to_double_values
      power3_eq_cube)

lemma demo_elapsed_2200:
  "js_div (js_sub (Num 2200) (Num 1000)) (Num 1000) = Num (5404319552844595 / 2 ^ 52)"
  by (simp add: js_sub_def to_double_values)

lemma demo_inflight_started: "transitionTo 1000 1000 1 demo_engine = Inr demo_inflight"
proof -
  let ?b = "beginTransition 1000 1 demo_engine"
  have b: "?b = demo_inflight\<lparr>frameRequested := False\<rparr>"
    by (simp add: beginTransition_def demo_inflight_def demo_engine_def demo_loading_def
        demo_uniforms_def demo_texture_def js_get_def or_else_def getDisplacementIndex_def
        Let_def)
  have f: "material ?b = Some demo_uniforms" "startTime ?b = Some 1000"
    unfolding b by (simp_all add: demo_inflight_fields)
  have t: "Num 0 = js_min (js_div (js_div (js_sub (Num 1000) (Num 1000)) (Num 1000))
                  (Num (transitionSpeed ?b))) (Num 1)"
    unfolding b by (simp add: js_sub_def to_double_zero demo_inflight_fields)
  have e: "Num 0 = js_sub (Num 1) (Math_pow3 (host_pow3 ?b) (js_sub (Num 1) (Num 0)))"
    unfolding b
    by (simp add: js_sub_def Math_pow3_def to_double_zero to_double_one demo_inflight_fields)
  have "animateProgress 1000 ?b =
      Inr (?b\<lparr>material := Some (demo_uniforms\<lparr>progress := Num 0\<rparr>), frameRequested := True\<rparr>)"
    using animateProgress_unfold [OF f t e] by simp
  also have "\<dots> = Inr demo_inflight"
    unfolding b by (simp add: demo_inflight_def demo_engine_def demo_uniforms_def)
  finally have "animateProgress 1000 ?b = Inr demo_inflight" .
  moreover have "transitionTo 1000 1000 1 demo_engine = animateProgress 1000 ?b"
    by (simp add: transitionTo_def demo_engine_def demo_loading_def js_get_def)
  ultimately show ?thesis by simp
qed

theorem animateProgress_eased_witness:
  "js_less (Num (7 / 8)) (Num 1) \<and>
   animateProgress 1600 demo_inflight =
     Inr (demo_inflight\<lparr>material := Some (demo_uniforms\<lparr>progress := Num (7 / 8)\<rparr>),
           frameRequested := True\<rparr>) \<and>
   0 < transitionSpeed demo_inflight \<and>
   js_div (js_sub (Num 2200) (Num 1000)) (Num 1000) = Num (transitionSpeed demo_inflight) \<and>
   (\<exists>s' u'. animateProgress 2200 demo_inflight = Inr s' \<and> material s' = Some u' \<and>
      currentIndex s' = 1 \<and> \<not> isTransitioning s' \<and> progress u' = Num 0 \<and>
      texture1 u' = Some (demo_texture ''b.jpg'') \<and>
      texture2 u' = Some (demo_texture ''c.jpg''))"
proof -
  note f = demo_inflight_fields
  have l: "js_less (Num (7 / 8)) (Num 1)" by simp
  have a: "animateProgress 1600 demo_inflight =
     Inr (demo_inflight\<lparr>material := Some (demo_uniforms\<lparr>progress := Num (7 / 8)\<rparr>),
           frameRequested := True\<rparr>)"
    using animateProgress_eased [OF f(1) f(2) f(3) demo_eased_1600(1) [symmetric]
        demo_eased_1600(2) [symmetric], of 0] l
    by blast
  have d: "0 < transitionSpeed demo_inflight" by (simp add: f(4))
  have x: "js_div (js_sub (Num 2200) (Num 1000)) (Num 1000) = Num (transitionSpeed demo_inflight)"
    by (simp add: demo_elapsed_2200 f(4))
  define t where "t = js_min (js_div (js_div (js_sub (Num 2200) (Num 1000)) (Num 1000))
                  (Num (transitionSpeed demo_inflight))) (Num 1)"
  define e where "e = js_sub (Num 1) (Math_pow3 (host_pow3 demo_inflight) (js_sub (Num 1) t))"
  note w = animateProgress_eased [OF f(1) f(2) f(3) t_def e_def,
      of "transitionSpeed demo_inflight"]
  from w d x have "\<not> js_less e (Num 1)" by simp
  with w have "\<exists>s' u'. animateProgress 2200 demo_inflight = Inr s' \<and> material s' = Some u' \<and>
               currentIndex s' = 1 \<and> \<not> isTransitioning s' \<and> progress u' = Num 0 \<and>
               texture1 u' = js_get (textures demo_inflight) (currentIndex s') \<and>
               texture2 u' = js_get (textures demo_inflight)
                  (min (currentIndex s' + 1) (int (length (images demo_inflight)) - 1)) \<and>
               frameRequested s' = frameRequested demo_inflight"
    by blast
  then obtain s' u' where r: "animateProgress 2200 demo_inflight = Inr s'"
      "material s' = Some u'" "currentIndex s' = 1" "\<not> isTransitioning s'"
      "progress u' = Num 0"
      "texture1 u' = js_get (textures demo_inflight) (currentIndex s')"
      "texture2 u' = js_get (textures demo_inflight)
                  (min (currentIndex s' + 1) (int (length (images demo_inflight)) - 1))"
    by blast
  have "texture1 u' = Some (demo_texture ''b.jpg'')"
    "texture2 u' = Some (demo_texture ''c.jpg'')"
    using r(6,7) demo_inflight_textures unfolding r(3) by simp_all
  with r have b: "\<exists>s' u'. animateProgress 2200 demo_inflight = Inr s' \<and> material s' = Some u' \<and>
      currentIndex s' = 1 \<and> \<not> isTransitioning s' \<and> progress u' = Num 0 \<and>
      texture1 u' = Some (demo_texture ''b.jpg'') \<and>
      texture2 u' = Some (demo_texture ''c.jpg'')"
    by blast
  from l a d x b show ?thesis by blast
qed

text \<open>
  The eased value reaches 1 before \<open>t\<close> does: with a duration of 1000 seconds, the frame
  999.999 seconds after the start has \<open>t = 0.999999\<close> and an eased double of exactly 1,
  and it completes the transition.
\<close>

lemma to_double_late:
  "to_double 999999 = Num 999999"
  "to_double (999999 / 1000) = Num (4398042113057489 / 2 ^ 42)"
  "to_double (4398042113057489 / 2 ^ 42 / 1000) = Num (9007190247541737 / 2 ^ 53)"
  "to_double (1 - 9007190247541737 / 2 ^ 53) = Num (9007199255 / 2 ^ 53)"
  "to_double ((9007199255 / 2 ^ 53) ^ 3) = Num (5192296858982751 / 2 ^ 112)"
  "to_double (1 - 5192296858982751 / 2 ^ 112) = Num 1"
proof -
  show "to_double 999999 = Num 999999"
    by (rule to_double_eval [where e = 19]) (simp_all add: round_even_def)
  show "to_double (999999 / 1000) = Num (4398042113057489 / 2 ^ 42)"
    by (rule to_double_eval [where e = 9]) (simp_all add: round_even_def)
  show "to_double (4398042113057489 / 2 ^ 42 / 1000) = Num (9007190247541737 / 2 ^ 53)"
    by (rule to_double_eval [where e = "- 1"]) (simp_all add: round_even_def)
  show "to_double (1 - 9007190247541737 / 2 ^ 53) = Num (9007199255 / 2 ^ 53)"
    by (rule to_double_eval [where e = "- 20"]) (simp_all add: round_even_def)
  show "to_double ((9007199255 / 2 ^ 53) ^ 3) = Num (5192296858982751 / 2 ^ 112)"
    by (rule to_double_eval [where e = "- 60"]) (simp_all add: round_even_def power3_eq_cube)
  show "to_double (1 - 5192296858982751 / 2 ^ 112) = Num 1"
    by (rule to_double_eval [where e = "- 1"]) (simp_all add: round_even_def)
qed

lemma demo_eased_late:
  "js_min (js_div (js_div (js_sub (Num 1000999) (Num 1000)) (Num 1000)) (Num 1000)) (Num 1)
     = Num (9007190247541737 / 2 ^ 53)"
  "js_sub (Num 1) (Math_pow3 (\<lambda>b. to_double (b ^ 3))
     (js_sub (Num 1) (Num (9007190247541737 / 2 ^ 53)))) = Num 1"
  "(9007190247541737 / 2 ^ 53 :: real) < 1"
proof -
  have a: "js_sub (Num 1000999) (Num 1000) = Num 999999"
    using to_double_late(1) by (simp add: js_sub_def)
  have b: "js_div (Num 999999) (Num 1000) = Num (4398042113057489 / 2 ^ 42)"
    using to_double_late(2) by simp
  have c: "js_div (Num (4398042113057489 / 2 ^ 42)) (Num 1000) =
      Num (9007190247541737 / 2 ^ 53)"
    using to_double_late(3) by simp
  show "js_min (js_div (js_div (js_sub (Num 1000999) (Num 1000)) (Num 1000)) (Num 1000)) (Num 1)
     = Num (9007190247541737 / 2 ^ 53)"
    unfolding a b c by simp
  have d: "js_sub (Num 1) (Num (9007190247541737 / 2 ^ 53)) = Num (9007199255 / 2 ^ 53)"
    using to_double_late(4) by (simp add: js_sub_def)
  have e: "Math_pow3 (\<lambda>b. to_double (b ^ 3)) (Num (9007199255 / 2 ^ 53)) =
      Num (5192296858982751 / 2 ^ 112)"
    using to_double_late(5) by (simp add: Math_pow3_def)
  have f: "js_sub (Num 1) (Num (5192296858982751 / 2 ^ 112)) = Num 1"
    using to_double_late(6) by (simp add: js_sub_def)
  show "js_sub (Num 1) (Math_pow3 (\<lambda>b. to_double (b ^ 3))
     (js_sub (Num 1) (Num (9007190247541737 / 2 ^ 53)))) = Num 1"
    unfolding d e f by (rule refl)
  show "(9007190247541737 / 2 ^ 53 :: real) < 1" by simp
qed

lemma easeOut_rounds_to_one:
  "animateProgress 1000999 demo_slow =
     Inr (completeTransition 1 (demo_uniforms\<lparr>progress := Num 1\<rparr>) demo_slow)"
proof -
  have f: "material demo_slow = Some demo_uniforms" "startTime demo_slow = Some 1000"
    "targetIndex demo_slow = Some 1" "transitionSpeed demo_slow = 1000"
    "host_pow3 demo_slow = (\<lambda>b. to_double (b ^ 3))"
    by (simp_all add: demo_slow_def setTransitionSpeed_def demo_inflight_fields)
  have t: "Num (9007190247541737 / 2 ^ 53) =
      js_min (js_div (js_div (js_sub (Num 1000999) (Num 1000)) (Num 1000))
        (Num (transitionSpeed demo_slow))) (Num 1)"
    unfolding f(4) by (rule demo_eased_late(1) [symmetric])
  have e: "Num 1 = js_sub (Num 1) (Math_pow3 (host_pow3 demo_slow)
      (js_sub (Num 1) (Num (9007190247541737 / 2 ^ 53))))"
    unfolding f(5) by (rule demo_eased_late(2) [symmetric])
  show ?thesis
    using animateProgress_unfold [OF f(1) f(2) t e] by (simp add: f(3))
qed

lemma demo_slow_committed:
  "currentIndex (completeTransition 1 (demo_uniforms\<lparr>progress := Num 1\<rparr>) demo_slow) = 1"
  "\<not> isTransitioning (completeTransition 1 (demo_uniforms\<lparr>progress := Num 1\<rparr>) demo_slow)"
  by (simp_all add: completeTransition_def Let_def)

text \<open>
  The code has no lower clamp: at a clock reading before the start the quotient is
  negative and its eased value, here \<open>-2.375\<close>, is written, where \<open>t\<close> clamped to
  \<open>[0, 1]\<close> gives 0. And the transition completes at \<open>t = 0.999999\<close>, below 1.
\<close>

theorem animateProgress_counterexample:
  "animateProgress 400 demo_inflight =
     Inr (demo_inflight\<lparr>material := Some (demo_uniforms\<lparr>progress := Num (- (19 / 8))\<rparr>),
           frameRequested := True\<rparr>) \<and>
   1 - (1 - max 0 (min ((400 - 1000) / 1000 / 1.2) 1)) ^ 3 = (0::real) \<and>
   animateProgress 1000999 demo_slow =
     Inr (completeTransition 1 (demo_uniforms\<lparr>progress := Num 1\<rparr>) demo_slow) \<and>
   max 0 (min ((1000999 - 1000) / 1000 / 1000) 1) < (1::real)"
proof -
  note f = demo_inflight_fields
  have "animateProgress 400 demo_inflight =
     Inr (demo_inflight\<lparr>material := Some (demo_uniforms\<lparr>progress := Num (- (19 / 8))\<rparr>),
           frameRequested := True\<rparr>)"
    using animateProgress_unfold [OF f(1) f(2) demo_eased_400(1) [symmetric]
        demo_eased_400(2) [symmetric]]
    by simp
  with easeOut_rounds_to_one show ?thesis by simp
qed

subsection \<open>Seeding the initial image\<close>

lemma clamp_idem: "max 0 (min (max 0 (min i n)) n) = max (0::int) (min i n)"
  by auto

lemma applyInitialImage_currentIndex_eq:
  "currentIndex (applyInitialImage i s) =
     (if material s = None \<or> js_get (textures s) i = None then currentIndex s
      else max 0 (min i (int (length (images s)) - 1)))"
  by (simp add: applyInitialImage_def Let_def split: option.splits prod.splits)

lemma setInitialImage_currentIndex:
  "currentIndex (setInitialImage i s) = max 0 (min i (int (length (images s)) - 1))"
proof -
  let ?safe = "max 0 (min i (int (length (images s)) - 1))"
  let ?s1 = "s\<lparr>currentIndex := ?safe\<rparr>"
  have "currentIndex (applyInitialImage ?safe ?s1) = ?safe"
    by (simp add: applyInitialImage_currentIndex_eq clamp_idem)
  then show ?thesis
    by (simp add: setInitialImage_def Let_def)
qed

lemma setInitialImage_no_material:
  "material s = None \<Longrightarrow>
   setInitialImage i s = s\<lparr>currentIndex := max 0 (min i (int (length (images s)) - 1)),
       pendingInitialIndex := pendingInitialIndex (setInitialImage i s)\<rparr>"
  by (simp add: setInitialImage_def Let_def)

lemma transitionTo_current: "transitionTo now0 now1 (currentIndex s) s = Inr s"
  by (simp add: transitionTo_def)

text \<open>
  C10. Every call \<open>setInitialImage(i)\<close> sets \<open>currentIndex\<close> to the clamped index at
  once: \<open>getCurrentIndex\<close> reports it, a later \<open>transitionTo\<close> to that index is
  rejected and changes nothing, and while no material exists the call changes nothing
  but \<open>currentIndex\<close> and the pending request.
\<close>

theorem setInitialImage_sets_currentIndex:
  "getCurrentIndex (setInitialImage i s) = max 0 (min i (int (length (images s)) - 1)) \<and>
   transitionTo now0 now1 (max 0 (min i (int (length (images s)) - 1))) (setInitialImage i s)
     = Inr (setInitialImage i s) \<and>
   (material s = None \<longrightarrow>
      setInitialImage i s = s\<lparr>currentIndex := max 0 (min i (int (length (images s)) - 1)),
         pendingInitialIndex := pendingInitialIndex (setInitialImage i s)\<rparr>)"
proof (intro conjI impI)
  show "getCurrentIndex (setInitialImage i s) = max 0 (min i (int (length (images s)) - 1))"
    unfolding getCurrentIndex_def by (rule setInitialImage_currentIndex)
next
  have "transitionTo now0 now1 (currentIndex (setInitialImage i s)) (setInitialImage i s)
      = Inr (setInitialImage i s)"
    by (rule transitionTo_current)
  then show "transitionTo now0 now1 (max 0 (min i (int (length (images s)) - 1)))
      (setInitialImage i s) = Inr (setInitialImage i s)"
    unfolding setInitialImage_currentIndex .
next
  assume "material s = None"
  then show "setInitialImage i s =
      s\<lparr>currentIndex := max 0 (min i (int (length (images s)) - 1)),
        pendingInitialIndex := pendingInitialIndex (setInitialImage i s)\<rparr>"
    by (rule setInitialImage_no_material)
qed

theorem setInitialImage_sets_currentIndex_witness:
  "material demo_loading = None \<and>
   getCurrentIndex (setInitialImage 7 demo_loading) = 2 \<and>
   transitionTo 100 100 2 (setInitialImage 7 demo_loading) = Inr (setInitialImage 7 demo_loading) \<and>
   material (setInitialImage 7 demo_loading) = None"
proof -
  have m: "material demo_loading = None" by (simp add: demo_loading_def)
  have l: "max 0 (min 7 (int (length (images demo_loading)) - 1)) = 2"
    by (simp add: demo_loading_def)
  note w = setInitialImage_sets_currentIndex [of 7 demo_loading 100 100, unfolded l]
  from w m have "setInitialImage 7 demo_loading = demo_loading\<lparr>currentIndex := 2,
         pendingInitialIndex := pendingInitialIndex (setInitialImage 7 demo_loading)\<rparr>"
    by blast
  then have "material (setInitialImage 7 demo_loading) =
      material (demo_loading\<lparr>currentIndex := 2,
         pendingInitialIndex := pendingInitialIndex (setInitialImage 7 demo_loading)\<rparr>)"
    by (rule arg_cong [where f = material])
  then have "material (setInitialImage 7 demo_loading) = material demo_loading"
    by simp
  with w m show ?thesis by simp
qed

subsection \<open>Stepping to the next and the previous image\<close>

lemma animateProgress_cases:
  assumes "material s = Some u" and "targetIndex s = Some ti"
  shows "\<exists>e. animateProgress now s =
            Inr (s\<lparr>material := Some (u\<lparr>progress := e\<rparr>), frameRequested := True\<rparr>)
          \<or> animateProgress now s = Inr (completeTransition ti (u\<lparr>progress := e\<rparr>) s)"
proof -
  define e where "e = easeOut (host_pow3 s) (js_min (js_div (js_div (js_sub (Num now)
      (case startTime s of Some start \<Rightarrow> Num start | None \<Rightarrow> NaN)) (Num 1000))
      (Num (transitionSpeed s))) (Num 1))"
  have "animateProgress now s =
     (if js_less e (Num 1)
      then Inr (s\<lparr>material := Some (u\<lparr>progress := e\<rparr>), frameRequested := True\<rparr>)
      else Inr (completeTransition ti (u\<lparr>progress := e\<rparr>) s))"
    unfolding e_def using assms by (simp add: animateProgress_def Let_def)
  then show ?thesis
    by (cases "js_less e (Num 1)") (simp_all, blast+)
qed

lemma beginTransition_fields:
  assumes "material s = Some u"
  shows "\<exists>u1. material (beginTransition now0 t s) = Some u1"
    and "targetIndex (beginTransition now0 t s) = Some t"
    and "currentIndex (beginTransition now0 t s) = currentIndex s"
    and "images (beginTransition now0 t s) = images s"
    and "frameRequested (beginTransition now0 t s) = frameRequested s"
    and "startTime (beginTransition now0 t s) = Some now0"
    and "isTransitioning (beginTransition now0 t s)"
    and "textures (beginTransition now0 t s) = textures s"
    and "transitionSpeed (beginTransition now0 t s) = transitionSpeed s"
  using assms by (simp_all add: beginTransition_def Let_def split: option.splits)

lemma completeTransition_fields:
  "currentIndex (completeTransition ti u s) = ti"
  "images (completeTransition ti u s) = images s"
  "frameRequested (completeTransition ti u s) = frameRequested s"
  "targetIndex (completeTransition ti u s) = targetIndex s"
  "isTransitioning (completeTransition ti u s) = False"
  by (simp_all add: completeTransition_def Let_def)

lemma onAnimationFrame_keeps:
  assumes r: "index_in_range s (currentIndex s)" and f: "frame_ok s"
  shows "\<exists>s'. onAnimationFrame now s = Inr s' \<and> index_in_range s' (currentIndex s') \<and>
     frame_ok s' \<and> images s' = images s \<and> targetIndex s' = targetIndex s \<and>
     (currentIndex s' = currentIndex s \<or>
      (frameRequested s \<and> targetIndex s = Some (currentIndex s')))"
proof (cases "frameRequested s")
  case False
  then have "onAnimationFrame now s = Inr s" by (simp add: onAnimationFrame_def)
  with r f show ?thesis by simp
next
  case True
  with f obtain u ti where m: "material s = Some u" and t: "targetIndex s = Some ti"
    and tr: "index_in_range s ti"
    by (auto simp: frame_ok_def split: option.splits)
  let ?s0 = "s\<lparr>frameRequested := False\<rparr>"
  have m0: "material ?s0 = Some u" and t0: "targetIndex ?s0 = Some ti"
    using m t by simp_all
  from animateProgress_cases [OF m0 t0, of now] obtain e where
    "animateProgress now ?s0 = Inr (?s0\<lparr>material := Some (u\<lparr>progress := e\<rparr>), frameRequested := True\<rparr>)
     \<or> animateProgress now ?s0 = Inr (completeTransition ti (u\<lparr>progress := e\<rparr>) ?s0)"
    by blast
  then show ?thesis
  proof
    assume a: "animateProgress now ?s0 =
        Inr (?s0\<lparr>material := Some (u\<lparr>progress := e\<rparr>), frameRequested := True\<rparr>)"
    have "onAnimationFrame now s =
        Inr (?s0\<lparr>material := Some (u\<lparr>progress := e\<rparr>), frameRequested := True\<rparr>)"
      using True a by (simp add: onAnimationFrame_def)
    then show ?thesis
      using r t tr by (simp add: frame_ok_def index_in_range_def)
  next
    assume a: "animateProgress now ?s0 = Inr (completeTransition ti (u\<lparr>progress := e\<rparr>) ?s0)"
    have "onAnimationFrame now s = Inr (completeTransition ti (u\<lparr>progress := e\<rparr>) ?s0)"
      using True a by (simp add: onAnimationFrame_def)
    then show ?thesis
      using True t tr by (simp add: frame_ok_def index_in_range_def completeTransition_fields)
  qed
qed

lemma frames_keep:
  assumes "index_in_range s (currentIndex s)" and "frame_ok s"
  shows "\<exists>s'. frames ts s = Inr s' \<and> index_in_range s' (currentIndex s') \<and>
     frame_ok s' \<and> images s' = images s \<and> targetIndex s' = targetIndex s \<and>
     (currentIndex s' = currentIndex s \<or>
      (frameRequested s \<and> targetIndex s = Some (currentIndex s')))"
  using assms
proof (induction ts arbitrary: s)
  case Nil
  then show ?case by simp
next
  case (Cons now ts)
  from onAnimationFrame_keeps [OF Cons.prems, of now] obtain s1 where
    s1: "onAnimationFrame now s = Inr s1" "index_in_range s1 (currentIndex s1)" "frame_ok s1"
      "images s1 = images s" "targetIndex s1 = targetIndex s"
      "currentIndex s1 = currentIndex s \<or> (frameRequested s \<and> targetIndex s = Some (currentIndex s1))"
    by blast
  have fr: "frameRequested s1 \<Longrightarrow> frameRequested s"
    using s1(1) by (auto simp: onAnimationFrame_def split: if_splits)
  from Cons.IH [OF s1(2) s1(3)] obtain s2 where
    s2: "frames ts s1 = Inr s2" "index_in_range s2 (currentIndex s2)" "frame_ok s2"
      "images s2 = images s1" "targetIndex s2 = targetIndex s1"
      "currentIndex s2 = currentIndex s1 \<or> (frameRequested s1 \<and> targetIndex s1 = Some (currentIndex s2))"
    by blast
  have "frames (now # ts) s = Inr s2" using s1(1) s2(1) by simp
  moreover have "currentIndex s2 = currentIndex s \<or>
      (frameRequested s \<and> targetIndex s = Some (currentIndex s2))"
    using s1(5,6) s2(6) fr by auto
  ultimately show ?case using s1 s2 by simp
qed

lemma transitionTo_keeps:
  assumes nf: "\<not> frameRequested s" and r: "index_in_range s (currentIndex s)"
    and tr: "index_in_range s t"
  shows "\<exists>s'. transitionTo now0 now1 t s = Inr s' \<and> index_in_range s' (currentIndex s') \<and>
     frame_ok s' \<and> images s' = images s \<and>
     (currentIndex s' = currentIndex s \<or> currentIndex s' = t) \<and>
     (frameRequested s' \<longrightarrow> targetIndex s' = Some t)"
proof (cases "isTransitioning s \<or> t = currentIndex s \<or> material s = None")
  case True
  then have "transitionTo now0 now1 t s = Inr s" by (simp add: transitionTo_def)
  with nf r show ?thesis by (simp add: frame_ok_def)
next
  case False
  then obtain u where m: "material s = Some u" by auto
  show ?thesis
  proof (cases "js_get (textures s) t = None")
    case True
    with False have "transitionTo now0 now1 t s =
        Inr (s\<lparr>console := console s @ [''Target texture not loaded:'']\<rparr>)"
      by (auto simp: transitionTo_def)
    with nf r show ?thesis by (simp add: frame_ok_def index_in_range_def)
  next
    case loaded: False
    let ?b = "beginTransition now0 t s"
    have eq: "transitionTo now0 now1 t s = animateProgress now1 ?b"
      using False loaded by (auto simp: transitionTo_def)
    note bf = beginTransition_fields [OF m, of now0 t]
    from bf(1) obtain u1 where m1: "material ?b = Some u1" by blast
    from animateProgress_cases [OF m1 bf(2), of now1] obtain e where
      "animateProgress now1 ?b = Inr (?b\<lparr>material := Some (u1\<lparr>progress := e\<rparr>), frameRequested := True\<rparr>)
       \<or> animateProgress now1 ?b = Inr (completeTransition t (u1\<lparr>progress := e\<rparr>) ?b)"
      by blast
    then show ?thesis
    proof
      assume "animateProgress now1 ?b =
          Inr (?b\<lparr>material := Some (u1\<lparr>progress := e\<rparr>), frameRequested := True\<rparr>)"
      with eq have "transitionTo now0 now1 t s =
          Inr (?b\<lparr>material := Some (u1\<lparr>progress := e\<rparr>), frameRequested := True\<rparr>)"
        by simp
      then show ?thesis
        using r tr bf by (simp add: frame_ok_def index_in_range_def)
    next
      assume "animateProgress now1 ?b = Inr (completeTransition t (u1\<lparr>progress := e\<rparr>) ?b)"
      with eq have "transitionTo now0 now1 t s = Inr (completeTransition t (u1\<lparr>progress := e\<rparr>) ?b)"
        by simp
      then show ?thesis
        using nf tr bf by (simp add: frame_ok_def index_in_range_def completeTransition_fields)
    qed
  qed
qed

lemma transitionTo_then_frames:
  assumes nf: "\<not> frameRequested s" and r: "index_in_range s (currentIndex s)"
    and tr: "index_in_range s t"
  shows "\<exists>s1 s2. transitionTo now0 now1 t s = Inr s1 \<and> frames ts s1 = Inr s2 \<and>
     index_in_range s (currentIndex s1) \<and> index_in_range s (currentIndex s2) \<and>
     images s2 = images s \<and>
     (currentIndex s2 = currentIndex s \<or> currentIndex s2 = t)"
proof -
  from transitionTo_keeps [OF nf r tr, of now0 now1] obtain s1 where
    s1: "transitionTo now0 now1 t s = Inr s1" "index_in_range s1 (currentIndex s1)"
      "frame_ok s1" "images s1 = images s"
      "currentIndex s1 = currentIndex s \<or> currentIndex s1 = t"
      "frameRequested s1 \<longrightarrow> targetIndex s1 = Some t"
    by blast
  from frames_keep [OF s1(2) s1(3), of ts] obtain s2 where
    s2: "frames ts s1 = Inr s2" "index_in_range s2 (currentIndex s2)"
      "images s2 = images s1"
      "currentIndex s2 = currentIndex s1 \<or>
         (frameRequested s1 \<and> targetIndex s1 = Some (currentIndex s2))"
    by blast
  have "currentIndex s2 = currentIndex s \<or> currentIndex s2 = t"
    using s1(5,6) s2(4) by auto
  moreover have "index_in_range s (currentIndex s1)" "index_in_range s (currentIndex s2)"
    using s1(2,4) s2(2,3) by (simp_all add: index_in_range_def)
  ultimately show ?thesis using s1(1) s2(1) s2(3) s1(4) by simp
qed

text \<open>
  A frame is requested only during a transition: \<open>transitionTo\<close> and the animation
  frames keep this.
\<close>

lemma animateProgress_flags:
  assumes "animateProgress now s = Inr s'"
  shows "(frameRequested s' \<and> isTransitioning s' = isTransitioning s) \<or>
         (frameRequested s' = frameRequested s \<and> \<not> isTransitioning s')"
  using assms
  by (auto simp: animateProgress_def completeTransition_def Let_def
      split: option.splits if_splits)

lemma onAnimationFrame_frame_in_transition:
  assumes "frameRequested s \<longrightarrow> isTransitioning s" and "onAnimationFrame now s = Inr s'"
  shows "frameRequested s' \<longrightarrow> isTransitioning s'"
proof (cases "frameRequested s")
  case False
  with assms show ?thesis by (simp add: onAnimationFrame_def)
next
  case True
  with assms(2) have "animateProgress now (s\<lparr>frameRequested := False\<rparr>) = Inr s'"
    by (simp add: onAnimationFrame_def)
  from animateProgress_flags [OF this] True assms(1) show ?thesis by auto
qed

lemma transitionTo_frame_in_transition:
  assumes inv: "frameRequested s \<longrightarrow> isTransitioning s"
    and r: "transitionTo now0 now1 t s = Inr s'"
  shows "frameRequested s' \<longrightarrow> isTransitioning s'"
proof (cases "isTransitioning s \<or> t = currentIndex s \<or> material s = None")
  case True
  with r have "s' = s" by (simp add: transitionTo_def)
  with inv show ?thesis by simp
next
  case False
  then obtain u where m: "material s = Some u" by auto
  show ?thesis
  proof (cases "js_get (textures s) t = None")
    case True
    with False r have "s' = s\<lparr>console := console s @ [''Target texture not loaded:'']\<rparr>"
      by (auto simp: transitionTo_def)
    with inv show ?thesis by simp
  next
    case loaded: False
    have "animateProgress now1 (beginTransition now0 t s) = Inr s'"
      using False loaded r by (auto simp: transitionTo_def)
    from animateProgress_flags [OF this] beginTransition_fields(5,7) [OF m, of now0 t] False inv
    show ?thesis by auto
  qed
qed

text \<open>
  C5. From a state whose \<open>currentIndex\<close> is a position of the image sequence (and in
  which a frame is requested only during a transition), \<open>transitionToNext\<close> and
  \<open>transitionToPrevious\<close> keep it one: at the last position \<open>transitionToNext\<close>
  changes nothing, at position 0 \<open>transitionToPrevious\<close> changes nothing, during a
  transition both change nothing, and otherwise the call returns and, after any number of
  animation frames, \<open>currentIndex\<close> is the old position or its neighbour, inside the
  sequence; it never wraps around.
\<close>

theorem transitionToNext_Previous_bounded:
  assumes lo: "0 \<le> currentIndex s" and hi: "currentIndex s \<le> int (length (images s)) - 1"
    and reach: "frameRequested s \<longrightarrow> isTransitioning s"
  shows "(currentIndex s = int (length (images s)) - 1 \<longrightarrow> transitionToNext now0 now1 s = Inr s) \<and>
    (currentIndex s = 0 \<longrightarrow> transitionToPrevious now0 now1 s = Inr s) \<and>
    (isTransitioning s \<longrightarrow>
       transitionToNext now0 now1 s = Inr s \<and> transitionToPrevious now0 now1 s = Inr s) \<and>
    (\<not> isTransitioning s \<longrightarrow>
       (\<exists>s1 s2. transitionToNext now0 now1 s = Inr s1 \<and> frames ts s1 = Inr s2 \<and>
          0 \<le> currentIndex s1 \<and> currentIndex s1 \<le> int (length (images s)) - 1 \<and>
          0 \<le> currentIndex s2 \<and> currentIndex s2 \<le> int (length (images s)) - 1 \<and>
          images s2 = images s \<and>
          (currentIndex s2 = currentIndex s \<or> currentIndex s2 = currentIndex s + 1))) \<and>
    (\<not> isTransitioning s \<longrightarrow>
       (\<exists>s1 s2. transitionToPrevious now0 now1 s = Inr s1 \<and> frames ts s1 = Inr s2 \<and>
          0 \<le> currentIndex s1 \<and> currentIndex s1 \<le> int (length (images s)) - 1 \<and>
          0 \<le> currentIndex s2 \<and> currentIndex s2 \<le> int (length (images s)) - 1 \<and>
          images s2 = images s \<and>
          (currentIndex s2 = currentIndex s \<or> currentIndex s2 = currentIndex s - 1)))"
proof (intro conjI impI)
  assume "currentIndex s = int (length (images s)) - 1"
  then show "transitionToNext now0 now1 s = Inr s"
    by (simp add: transitionToNext_def)
next
  assume "currentIndex s = 0"
  then show "transitionToPrevious now0 now1 s = Inr s"
    by (simp add: transitionToPrevious_def)
next
  assume "isTransitioning s"
  then show "transitionToNext now0 now1 s = Inr s"
    by (simp add: transitionToNext_def)
next
  assume "isTransitioning s"
  then show "transitionToPrevious now0 now1 s = Inr s"
    by (simp add: transitionToPrevious_def)
next
  assume idle: "\<not> isTransitioning s"
  with reach have nf: "\<not> frameRequested s" by blast
  have r: "index_in_range s (currentIndex s)"
    using lo hi by (simp add: index_in_range_def)
  have stay: "\<exists>s1 s2. Inr s = (Inr s1 :: error + engine) \<and> frames ts s1 = Inr s2 \<and>
          index_in_range s (currentIndex s1) \<and> index_in_range s (currentIndex s2) \<and>
          images s2 = images s \<and> currentIndex s2 = currentIndex s"
  proof -
    have "frame_ok s" using nf by (simp add: frame_ok_def)
    from frames_keep [OF r this, of ts] nf r show ?thesis by auto
  qed
  show "\<exists>s1 s2. transitionToNext now0 now1 s = Inr s1 \<and> frames ts s1 = Inr s2 \<and>
          0 \<le> currentIndex s1 \<and> currentIndex s1 \<le> int (length (images s)) - 1 \<and>
          0 \<le> currentIndex s2 \<and> currentIndex s2 \<le> int (length (images s)) - 1 \<and>
          images s2 = images s \<and>
          (currentIndex s2 = currentIndex s \<or> currentIndex s2 = currentIndex s + 1)"
  proof (cases "material s = None \<or> currentIndex s \<ge> int (length (images s)) - 1")
    case True
    then have "transitionToNext now0 now1 s = Inr s"
      by (auto simp: transitionToNext_def)
    with stay show ?thesis by (auto simp: index_in_range_def)
  next
    case False
    then have eq: "transitionToNext now0 now1 s = transitionTo now0 now1 (currentIndex s + 1) s"
      using idle by (auto simp: transitionToNext_def Let_def)
    have tr: "index_in_range s (currentIndex s + 1)"
      using False lo by (simp add: index_in_range_def)
    from transitionTo_then_frames [OF nf r tr, of now0 now1 ts] eq
    show ?thesis by (auto simp: index_in_range_def)
  qed
  show "\<exists>s1 s2. transitionToPrevious now0 now1 s = Inr s1 \<and> frames ts s1 = Inr s2 \<and>
          0 \<le> currentIndex s1 \<and> currentIndex s1 \<le> int (length (images s)) - 1 \<and>
          0 \<le> currentIndex s2 \<and> currentIndex s2 \<le> int (length (images s)) - 1 \<and>
          images s2 = images s \<and>
          (currentIndex s2 = currentIndex s \<or> currentIndex s2 = currentIndex s - 1)"
  proof (cases "material s = None \<or> currentIndex s \<le> 0")
    case True
    then have "transitionToPrevious now0 now1 s = Inr s"
      by (auto simp: transitionToPrevious_def)
    with stay show ?thesis by (auto simp: index_in_range_def)
  next
    case False
    then have eq: "transitionToPrevious now0 now1 s = transitionTo now0 now1 (currentIndex s - 1) s"
      using idle by (auto simp: transitionToPrevious_def Let_def)
    have tr: "index_in_range s (currentIndex s - 1)"
      using False hi by (simp add: index_in_range_def)
    from transitionTo_then_frames [OF nf r tr, of now0 now1 ts] eq
    show ?thesis by (auto simp: index_in_range_def)
  qed
qed

lemma demo_next_started: "transitionToNext 1000 1000 demo_engine = Inr demo_inflight"
proof -
  have "\<not> isTransitioning demo_engine" "material demo_engine \<noteq> None"
    "currentIndex demo_engine = 0" "length (images demo_engine) = 3"
    by (simp_all add: demo_engine_def demo_loading_def)
  then show ?thesis
    by (auto simp: transitionToNext_def demo_inflight_started Let_def)
qed

lemma demo_frames_complete:
  "\<exists>s'. frames [1600, 2200] demo_inflight = Inr s' \<and> currentIndex s' = 1 \<and>
     \<not> isTransitioning s' \<and> \<not> frameRequested s'"
proof -
  note f = demo_inflight_fields
  define s1 where "s1 = demo_inflight\<lparr>frameRequested := False\<rparr>"
  define s3 where "s3 = s1\<lparr>material := Some (demo_uniforms\<lparr>progress := Num (7 / 8)\<rparr>),
      frameRequested := False\<rparr>"
  have f1: "material s1 = Some demo_uniforms" "startTime s1 = Some 1000"
    "transitionSpeed s1 = transitionSpeed demo_inflight"
    "host_pow3 s1 = host_pow3 demo_inflight"
    by (simp_all add: s1_def f)
  have a: "animateProgress 1600 s1 =
      Inr (s1\<lparr>material := Some (demo_uniforms\<lparr>progress := Num (7 / 8)\<rparr>),
            frameRequested := True\<rparr>)"
    using animateProgress_unfold [OF f1(1) f1(2), of "Num (1 / 2)" 1600 "Num (7 / 8)"]
      demo_eased_1600
    by (simp add: f1)
  have f3: "material s3 = Some (demo_uniforms\<lparr>progress := Num (7 / 8)\<rparr>)"
    "startTime s3 = Some 1000" "targetIndex s3 = Some 1"
    "transitionSpeed s3 = 5404319552844595 / 2 ^ 52"
    by (simp_all add: s3_def s1_def f)
  have t: "Num 1 = js_min (js_div (js_div (js_sub (Num 2200) (Num 1000)) (Num 1000))
      (Num (transitionSpeed s3))) (Num 1)"
    unfolding demo_elapsed_2200 f3(4) by (simp add: to_double_one)
  have e: "Num 1 = js_sub (Num 1) (Math_pow3 (host_pow3 s3) (js_sub (Num 1) (Num 1)))"
    using easeOut_one [of "host_pow3 s3"] by (simp add: easeOut_def)
  have b: "animateProgress 2200 s3 =
      Inr (completeTransition 1 (demo_uniforms\<lparr>progress := Num (7 / 8), progress := Num 1\<rparr>) s3)"
    using animateProgress_unfold [OF f3(1) f3(2) t e] by (simp add: f3(3))
  have fr: "frameRequested demo_inflight" "\<not> frameRequested s3"
    by (simp_all add: demo_inflight_def s3_def)
  have "frames [1600, 2200] demo_inflight =
      Inr (completeTransition 1 (demo_uniforms\<lparr>progress := Num (7 / 8), progress := Num 1\<rparr>) s3)"
    using a b fr(1) by (simp add: onAnimationFrame_def s1_def [symmetric] s3_def [symmetric])
  moreover have "currentIndex (completeTransition 1
      (demo_uniforms\<lparr>progress := Num (7 / 8), progress := Num 1\<rparr>) s3) = 1"
    "\<not> isTransitioning (completeTransition 1
      (demo_uniforms\<lparr>progress := Num (7 / 8), progress := Num 1\<rparr>) s3)"
    "\<not> frameRequested (completeTransition 1
      (demo_uniforms\<lparr>progress := Num (7 / 8), progress := Num 1\<rparr>) s3)"
    using fr(2) by (simp_all add: completeTransition_def Let_def)
  ultimately show ?thesis by blast
qed

theorem transitionToNext_Previous_bounded_witness:
  "0 \<le> currentIndex demo_engine \<and>
   currentIndex demo_engine \<le> int (length (images demo_engine)) - 1 \<and>
   \<not> frameRequested demo_engine \<and>
   transitionToPrevious 1000 1000 demo_engine = Inr demo_engine \<and>
   (\<exists>s1 s2. transitionToNext 1000 1000 demo_engine = Inr s1 \<and>
      frames [1600, 2200] s1 = Inr s2 \<and> 0 \<le> currentIndex s2 \<and> currentIndex s2 \<le> 2 \<and>
      (currentIndex s2 = 0 \<or> currentIndex s2 = 1))"
proof -
  have c: "currentIndex demo_engine = 0" and l: "int (length (images demo_engine)) - 1 = 2"
    and f: "\<not> frameRequested demo_engine" and i: "\<not> isTransitioning demo_engine"
    by (simp_all add: demo_engine_def demo_loading_def)
  have lo: "0 \<le> currentIndex demo_engine" and hi: "currentIndex demo_engine \<le> int (length (images demo_engine)) - 1"
    and reach: "frameRequested demo_engine \<longrightarrow> isTransitioning demo_engine"
    using c l f by simp_all
  note w = transitionToNext_Previous_bounded [OF lo hi reach, of 1000 1000 "[1600, 2200]"]
  from w c have p: "transitionToPrevious 1000 1000 demo_engine = Inr demo_engine" by blast
  from w i have "\<exists>s1 s2. transitionToNext 1000 1000 demo_engine = Inr s1 \<and>
      frames [1600, 2200] s1 = Inr s2 \<and>
      0 \<le> currentIndex s1 \<and> currentIndex s1 \<le> int (length (images demo_engine)) - 1 \<and>
      0 \<le> currentIndex s2 \<and> currentIndex s2 \<le> int (length (images demo_engine)) - 1 \<and>
      images s2 = images demo_engine \<and>
      (currentIndex s2 = currentIndex demo_engine \<or> currentIndex s2 = currentIndex demo_engine + 1)"
    by blast
  then have n: "\<exists>s1 s2. transitionToNext 1000 1000 demo_engine = Inr s1 \<and>
      frames [1600, 2200] s1 = Inr s2 \<and> 0 \<le> currentIndex s2 \<and> currentIndex s2 \<le> 2 \<and>
      (currentIndex s2 = 0 \<or> currentIndex s2 = 1)"
    unfolding c l by auto
  from lo hi f p n show ?thesis by blast
qed

subsection \<open>Scroll lock\<close>

lemma transitionTo_total: "\<exists>s'. transitionTo now0 now1 t s = Inr s'"
proof (cases "isTransitioning s \<or> t = currentIndex s \<or> material s = None")
  case True
  then show ?thesis by (simp add: transitionTo_def)
next
  case False
  then obtain u where m: "material s = Some u" by auto
  show ?thesis
  proof (cases "js_get (textures s) t = None")
    case True
    with False show ?thesis by (auto simp: transitionTo_def)
  next
    case loaded: False
    have eq: "transitionTo now0 now1 t s = animateProgress now1 (beginTransition now0 t s)"
      using False loaded by (auto simp: transitionTo_def)
    note bf = beginTransition_fields [OF m, of now0 t]
    from bf(1) obtain u1 where m1: "material (beginTransition now0 t s) = Some u1" by blast
    from animateProgress_cases [OF m1 bf(2), of now1] eq show ?thesis by auto
  qed
qed

lemma lockScroll_locked: "scrollLocked c \<Longrightarrow> lockScroll c = c"
  by (simp add: lockScroll_def)

lemma lockScroll_twice: "lockScroll (lockScroll c) = lockScroll c"
  by (simp add: lockScroll_def Let_def)

lemma unlockScroll_unlocked: "\<not> scrollLocked c \<Longrightarrow> unlockScroll c = c"
  by (simp add: unlockScroll_def)

lemma lockScroll_ok:
  assumes "lock_ok c"
  shows "lock_ok (lockScroll c)" and "scrollLocked (lockScroll c)"
    and "scrollUnlockTimer (lockScroll c) = scrollUnlockTimer c"
    and "timers (lockScroll c) = timers c"
    and "scrollLockDuration (lockScroll c) = scrollLockDuration c"
    and "timerCalls (lockScroll c) = timerCalls c"
  using assms by (auto simp: lock_ok_def lockScroll_def Let_def split: option.splits)

lemma updateContentSections_fields:
  "scrollLocked (updateContentSections i c) = scrollLocked c"
  "scrollUnlockCleanup (updateContentSections i c) = scrollUnlockCleanup c"
  "scrollUnlockTimer (updateContentSections i c) = scrollUnlockTimer c"
  "listeners (updateContentSections i c) = listeners c"
  "timers (updateContentSections i c) = timers c"
  "scrollLockDuration (updateContentSections i c) = scrollLockDuration c"
  "imageUrls (updateContentSections i c) = imageUrls c"
  "timerCalls (updateContentSections i c) = timerCalls c"
  by (simp_all add: updateContentSections_def Let_def)

lemma updateContentSections_ok: "lock_ok (updateContentSections i c) = lock_ok c"
  by (simp add: lock_ok_def updateContentSections_fields split: option.splits)

lemma scheduleScrollUnlock_ok:
  assumes "lock_ok c"
  shows "lock_ok (scheduleScrollUnlock c)"
    and "scrollUnlockTimer (scheduleScrollUnlock c) = Some (Suc (timerCalls c))"
    and "timers (scheduleScrollUnlock c) = [(Suc (timerCalls c), scrollLockDuration c)]"
    and "scrollLocked (scheduleScrollUnlock c) = scrollLocked c"
proof -
  have t: "timers (scheduleScrollUnlock c) = [(Suc (timerCalls c), scrollLockDuration c)]"
  proof (cases "scrollUnlockTimer c")
    case None
    with assms have "timers c = []" by (simp add: lock_ok_def)
    with None show ?thesis by (simp add: scheduleScrollUnlock_def Let_def)
  next
    case (Some timer)
    with assms have "list_all (\<lambda>p. fst p = timer) (timers c)" by (simp add: lock_ok_def)
    then have "filter (\<lambda>p. fst p \<noteq> timer) (timers c) = []"
      by (induction "timers c") (auto simp: list_all_iff filter_empty_conv)
    with Some show ?thesis by (simp add: scheduleScrollUnlock_def clearTimeout_def Let_def)
  qed
  show "timers (scheduleScrollUnlock c) = [(Suc (timerCalls c), scrollLockDuration c)]"
    by (rule t)
  show s: "scrollUnlockTimer (scheduleScrollUnlock c) = Some (Suc (timerCalls c))"
    by (simp add: scheduleScrollUnlock_def clearTimeout_def Let_def split: option.splits)
  show l: "scrollLocked (scheduleScrollUnlock c) = scrollLocked c"
    by (simp add: scheduleScrollUnlock_def clearTimeout_def Let_def split: option.splits)
  have "listeners (scheduleScrollUnlock c) = listeners c"
    "scrollUnlockCleanup (scheduleScrollUnlock c) = scrollUnlockCleanup c"
    by (simp_all add: scheduleScrollUnlock_def clearTimeout_def Let_def split: option.splits)
  with assms t s l show "lock_ok (scheduleScrollUnlock c)"
    by (simp add: lock_ok_def split: option.splits if_splits)
qed


lemma unlockScroll_ok:
  assumes "lock_ok c"
  shows "lock_ok (unlockScroll c)" and "\<not> scrollLocked (unlockScroll c)"
    and "listeners (unlockScroll c) = []"
    and "scrollLocked c \<Longrightarrow> scrollUnlockTimer (unlockScroll c) = None"
    and "scrollLocked c \<Longrightarrow> timers (unlockScroll c) = []"
    and "engine (unlockScroll c) = engine c"
proof -
  show e: "engine (unlockScroll c) = engine c"
    by (simp add: unlockScroll_def scrollUnlockCleanup_run_def clearTimeout_def Let_def
        split: option.splits)
  show "lock_ok (unlockScroll c)" "\<not> scrollLocked (unlockScroll c)"
    "listeners (unlockScroll c) = []"
    "scrollLocked c \<Longrightarrow> scrollUnlockTimer (unlockScroll c) = None"
    "scrollLocked c \<Longrightarrow> timers (unlockScroll c) = []"
    using assms
    by (auto simp: lock_ok_def unlockScroll_def scrollUnlockCleanup_run_def clearTimeout_def
        Let_def list_all_iff filter_empty_conv split: option.splits if_splits)
qed

lemma timerFires_pending:
  assumes ok: "lock_ok c" and locked: "scrollLocked c" and t: "timers c = [(timer, d)]"
  shows "\<not> scrollLocked (timerFires timer c)" and "listeners (timerFires timer c) = []"
    and "timers (timerFires timer c) = []" and "scrollUnlockTimer (timerFires timer c) = None"
    and "engine (timerFires timer c) = engine c" and "lock_ok (timerFires timer c)"
proof -
  let ?c1 = "c\<lparr>timers := []\<rparr>"
  have eq: "timerFires timer c = unlockScroll ?c1"
    using t by (simp add: timerFires_def)
  have ok1: "lock_ok ?c1"
    using ok by (simp add: lock_ok_def split: option.splits if_splits)
  have l1: "scrollLocked ?c1" using locked by simp
  note u = unlockScroll_ok [OF ok1]
  show "\<not> scrollLocked (timerFires timer c)" using u(2) eq by simp
  show "listeners (timerFires timer c) = []" using u(3) eq by simp
  show "timers (timerFires timer c) = []" using u(5) [OF l1] eq by simp
  show "scrollUnlockTimer (timerFires timer c) = None" using u(4) [OF l1] eq by simp
  show "engine (timerFires timer c) = engine c" using u(6) eq by simp
  show "lock_ok (timerFires timer c)" using u(1) eq by simp
qed

lemma triggerTransition_schedules:
  assumes ok: "lock_ok c" and e: "engine c = Some e"
  shows "\<exists>c'. triggerTransition now0 now1 index c = Inr c' \<and> lock_ok c' \<and> scrollLocked c' \<and>
     scrollUnlockTimer c' = Some (Suc (timerCalls c)) \<and>
     timers c' = [(Suc (timerCalls c), scrollLockDuration c)]"
proof -
  let ?c1 = "lockScroll (updateContentSections index c)"
  let ?t = "max 0 (min index (int (length (imageUrls ?c1)) - 1))"
  from transitionTo_total [of now0 now1 ?t e] obtain e' where
    e': "transitionTo now0 now1 ?t e = Inr e'" by blast
  let ?c2 = "?c1\<lparr>engine := Some e'\<rparr>"
  have eq: "triggerTransition now0 now1 index c = Inr (scheduleScrollUnlock ?c2)"
    using e e' by (simp add: triggerTransition_def Let_def)
  have ok0: "lock_ok (updateContentSections index c)"
    using ok by (simp add: updateContentSections_ok)
  note l = lockScroll_ok [OF ok0]
  have ok2: "lock_ok ?c2"
    using l(1) by (simp add: lock_ok_def split: option.splits if_splits)
  note s = scheduleScrollUnlock_ok [OF ok2]
  have "scrollLocked (scheduleScrollUnlock ?c2)" using s(4) l(2) by simp
  moreover have "timerCalls ?c2 = timerCalls c" "scrollLockDuration ?c2 = scrollLockDuration c"
    using l(5,6) by (simp_all add: updateContentSections_fields)
  ultimately show ?thesis using eq s(1,2,3) by simp
qed

text \<open>
  C6. \<open>lockScroll\<close> on a locked controller changes nothing (so locking twice
  installs the listeners once), \<open>unlockScroll\<close> on an unlocked controller changes
  nothing, the default scroll-lock duration is 1200 ms, and after every
  \<open>triggerTransition\<close> with an engine exactly one timeout is pending, with the
  configured duration as its delay; when it fires, with no other call in between, the lock
  is cleared and no listener is left.
\<close>

theorem scroll_lock_idempotent:
  "(scrollLocked c \<longrightarrow> lockScroll c = c) \<and>
   lockScroll (lockScroll c) = lockScroll c \<and>
   (\<not> scrollLocked c \<longrightarrow> unlockScroll c = c) \<and>
   configScrollLockDuration None = 1200 \<and>
   (lock_ok c \<and> engine c \<noteq> None \<longrightarrow>
      (\<exists>c' timer. triggerTransition now0 now1 index c = Inr c' \<and> scrollLocked c' \<and>
         scrollUnlockTimer c' = Some timer \<and>
         timers c' = [(timer, scrollLockDuration c)] \<and>
         \<not> scrollLocked (timerFires timer c') \<and>
         listeners (timerFires timer c') = [] \<and>
         timers (timerFires timer c') = [] \<and>
         scrollUnlockTimer (timerFires timer c') = None))"
proof (intro conjI impI)
  assume "scrollLocked c" then show "lockScroll c = c" by (rule lockScroll_locked)
next
  show "lockScroll (lockScroll c) = lockScroll c" by (rule lockScroll_twice)
next
  assume "\<not> scrollLocked c" then show "unlockScroll c = c" by (rule unlockScroll_unlocked)
next
  show "configScrollLockDuration None = 1200" by (simp add: configScrollLockDuration_def)
next
  assume a: "lock_ok c \<and> engine c \<noteq> None"
  then obtain e where e: "engine c = Some e" by auto
  from a have ok: "lock_ok c" by simp
  from triggerTransition_schedules [OF ok e, of now0 now1 index] obtain c' where
    c': "triggerTransition now0 now1 index c = Inr c'" "lock_ok c'" "scrollLocked c'"
      "scrollUnlockTimer c' = Some (Suc (timerCalls c))"
      "timers c' = [(Suc (timerCalls c), scrollLockDuration c)]"
    by blast
  note f = timerFires_pending [OF c'(2) c'(3) c'(5)]
  show "\<exists>c' timer. triggerTransition now0 now1 index c = Inr c' \<and> scrollLocked c' \<and>
         scrollUnlockTimer c' = Some timer \<and>
         timers c' = [(timer, scrollLockDuration c)] \<and>
         \<not> scrollLocked (timerFires timer c') \<and>
         listeners (timerFires timer c') = [] \<and>
         timers (timerFires timer c') = [] \<and>
         scrollUnlockTimer (timerFires timer c') = None"
    using c'(1,3,4,5) f(1,2,3,4) by blast
qed

theorem scroll_lock_idempotent_witness:
  "lock_ok demo_controller \<and> engine demo_controller \<noteq> None \<and>
   \<not> scrollLocked demo_controller \<and> unlockScroll demo_controller = demo_controller \<and>
   scrollLocked (lockScroll demo_controller) \<and>
   lockScroll (lockScroll demo_controller) = lockScroll demo_controller \<and>
   (\<exists>c' timer. triggerTransition 1000 1000 1 demo_controller = Inr c' \<and> scrollLocked c' \<and>
      scrollUnlockTimer c' = Some timer \<and> timers c' = [(timer, 1200)] \<and>
      \<not> scrollLocked (timerFires timer c') \<and> listeners (timerFires timer c') = [])"
proof -
  have ok: "lock_ok demo_controller"
    by (simp add: lock_ok_def demo_controller_def)
  have en: "engine demo_controller \<noteq> None"
    by (simp add: demo_controller_def)
  have nl: "\<not> scrollLocked demo_controller"
    by (simp add: demo_controller_def)
  have ll: "scrollLocked (lockScroll demo_controller)"
    by (simp add: lockScroll_def demo_controller_def Let_def)
  have d: "scrollLockDuration demo_controller = 1200"
    by (simp add: demo_controller_def configScrollLockDuration_def)
  note w = scroll_lock_idempotent [of demo_controller 1000 1000 1]
  from w nl have u: "unlockScroll demo_controller = demo_controller" by blast
  from w have t: "lockScroll (lockScroll demo_controller) = lockScroll demo_controller" by blast
  from w ok en have "\<exists>c' timer. triggerTransition 1000 1000 1 demo_controller = Inr c' \<and>
      scrollLocked c' \<and> scrollUnlockTimer c' = Some timer \<and>
      timers c' = [(timer, scrollLockDuration demo_controller)] \<and>
      \<not> scrollLocked (timerFires timer c') \<and> listeners (timerFires timer c') = [] \<and>
      timers (timerFires timer c') = [] \<and> scrollUnlockTimer (timerFires timer c') = None"
    by blast
  then have x: "\<exists>c' timer. triggerTransition 1000 1000 1 demo_controller = Inr c' \<and> scrollLocked c' \<and>
      scrollUnlockTimer c' = Some timer \<and> timers c' = [(timer, 1200)] \<and>
      \<not> scrollLocked (timerFires timer c') \<and> listeners (timerFires timer c') = []"
    unfolding d by blast
  from ok en nl u ll t x show ?thesis by blast
qed

subsection \<open>Reading the state index\<close>

lemma parseInt10_exact:
  "decimal_value ds \<le> 2 ^ 53 \<Longrightarrow> parseInt10 ds = Num (real (decimal_value ds))"
  unfolding parseInt10_def by (rule to_double_nat_exact)

lemma zero_based_exact:
  assumes "n \<le> 2 ^ 53"
  shows "js_max (Num 0) (js_sub (Num (real n)) (Num 1)) = Num (max 0 (real n - 1))"
proof (cases n)
  case 0
  then show ?thesis by (simp add: js_sub_def to_double_minus_one)
next
  case (Suc k)
  then have "k \<le> 2 ^ 53" using assms by simp
  then have "to_double (real k) = Num (real k)" by (rule to_double_nat_exact)
  then show ?thesis using Suc by (simp add: js_sub_def)
qed

lemma match_examples:
  "match_state ''state-2'' = Some ''2''" "match_state ''state-5'' = Some ''5''"
  "match_state ''state-0'' = Some ''0''" "match_state ''state-12'' = Some ''12''"
  "match_state ''state-'' = None" "match_state ''state-x'' = None"
  "match_state ''w-tab'' = None" "match_state ''xstate-3'' = None"
  by (simp_all add: match_state_def is_digit_def Let_def)

lemma match_state_iff:
  "match_state c = Some ds \<longleftrightarrow> c = ''state-'' @ ds \<and> ds \<noteq> [] \<and> list_all is_digit ds"
proof
  assume a: "match_state c = Some ds"
  then have "take 6 c = ''state-''" "drop 6 c \<noteq> []" "list_all is_digit (drop 6 c)"
    "ds = drop 6 c"
    by (auto simp: match_state_def Let_def split: if_splits)
  moreover have "c = take 6 c @ drop 6 c" by simp
  ultimately show "c = ''state-'' @ ds \<and> ds \<noteq> [] \<and> list_all is_digit ds"
    by metis
next
  assume "c = ''state-'' @ ds \<and> ds \<noteq> [] \<and> list_all is_digit ds"
  then show "match_state c = Some ds"
    by (auto simp: match_state_def Let_def)
qed

lemma decimal_examples:
  "decimal_value ''0'' = 0" "decimal_value ''2'' = 2" "decimal_value ''3'' = 3"
  "decimal_value ''5'' = 5" "decimal_value ''7'' = 7" "decimal_value ''12'' = 12"
  "decimal_value ''9007199254740993'' = 9007199254740993"
  by (simp_all add: decimal_value_def digit_value_def)

lemma parseInt10_examples:
  "parseInt10 ''0'' = Num 0" "parseInt10 ''2'' = Num 2" "parseInt10 ''5'' = Num 5"
  "parseInt10 ''9007199254740993'' = Num 9007199254740992"
proof -
  have "parseInt10 ''0'' = Num (real (decimal_value ''0''))"
    "parseInt10 ''2'' = Num (real (decimal_value ''2''))"
    "parseInt10 ''5'' = Num (real (decimal_value ''5''))"
    by (rule parseInt10_exact, simp add: decimal_examples)+
  then show "parseInt10 ''0'' = Num 0" "parseInt10 ''2'' = Num 2" "parseInt10 ''5'' = Num 5"
    by (simp_all add: decimal_examples)
  have "to_double 9007199254740993 = Num 9007199254740992"
    by (rule to_double_eval [where e = 53]) (simp_all add: round_even_def)
  then show "parseInt10 ''9007199254740993'' = Num 9007199254740992"
    by (simp add: parseInt10_def decimal_examples)
qed

lemma extractStateNumber_loop_max:
  assumes "- 1 \<le> m"
    and "\<forall>c \<in> set cl. \<forall>ds. match_state c = Some ds \<longrightarrow> decimal_value ds \<le> 2 ^ 53"
  shows "\<exists>v. extractStateNumber_loop cl
              (if m = - 1 then None else Some (Num (of_int m)), Num (of_int m)) =
              (if v = - 1 then None else Some (Num (of_int v)), Num (of_int v)) \<and>
            m \<le> v \<and>
            (\<forall>c \<in> set cl. \<forall>ds. match_state c = Some ds \<longrightarrow> int (decimal_value ds) \<le> v) \<and>
            (v = m \<or> (\<exists>c \<in> set cl. \<exists>ds. match_state c = Some ds \<and> int (decimal_value ds) = v))"
  using assms
proof (induction cl arbitrary: m)
  case Nil
  then show ?case by simp
next
  case (Cons c cl)
  let ?acc = "\<lambda>m::int. (if m = - 1 then None else Some (Num (of_int m)), Num (of_int m))"
  have rest: "\<forall>c \<in> set cl. \<forall>ds. match_state c = Some ds \<longrightarrow> decimal_value ds \<le> 2 ^ 53"
    using Cons.prems(2) by simp
  show ?case
  proof (cases "match_state c")
    case None
    then have eq: "extractStateNumber_loop (c # cl) (?acc m) = extractStateNumber_loop cl (?acc m)"
      by simp
    from Cons.IH [OF Cons.prems(1) rest] obtain v where
      v: "extractStateNumber_loop cl (?acc m) = ?acc v" "m \<le> v"
        "\<forall>c \<in> set cl. \<forall>ds. match_state c = Some ds \<longrightarrow> int (decimal_value ds) \<le> v"
        "v = m \<or> (\<exists>c \<in> set cl. \<exists>ds. match_state c = Some ds \<and> int (decimal_value ds) = v)"
      by blast
    have a: "\<forall>c' \<in> set (c # cl). \<forall>ds. match_state c' = Some ds \<longrightarrow> int (decimal_value ds) \<le> v"
      using v(3) None by simp
    have b: "v = m \<or> (\<exists>c' \<in> set (c # cl). \<exists>ds. match_state c' = Some ds \<and>
        int (decimal_value ds) = v)"
      using v(4) by auto
    from v(1,2) a b show ?thesis unfolding eq by blast
  next
    case (Some ds)
    define k where "k = decimal_value ds"
    have "k \<le> 2 ^ 53" using Cons.prems(2) Some unfolding k_def by simp
    then have p: "parseInt10 ds = Num (real k)"
      unfolding k_def by (rule parseInt10_exact)
    have less: "js_less (Num (of_int m)) (Num (real k)) = (m < int k)"
      by simp linarith
    show ?thesis
    proof (cases "m < int k")
      case True
      have k1: "- 1 \<le> int k" by simp
      have "extractStateNumber_loop (c # cl) (?acc m) =
          extractStateNumber_loop cl (Some (Num (real k)), Num (real k))"
        using Some True less by (simp add: p Let_def)
      also have "(Some (Num (real k)), Num (real k)) = ?acc (int k)" by simp
      finally have eq: "extractStateNumber_loop (c # cl) (?acc m) =
          extractStateNumber_loop cl (?acc (int k))" .
      from Cons.IH [OF k1 rest] obtain v where
        v: "extractStateNumber_loop cl (?acc (int k)) = ?acc v" "int k \<le> v"
          "\<forall>c \<in> set cl. \<forall>ds. match_state c = Some ds \<longrightarrow> int (decimal_value ds) \<le> v"
          "v = int k \<or> (\<exists>c \<in> set cl. \<exists>ds. match_state c = Some ds \<and> int (decimal_value ds) = v)"
        by blast
      have a: "m \<le> v" using v(2) True by simp
      have b: "\<forall>c' \<in> set (c # cl). \<forall>ds. match_state c' = Some ds \<longrightarrow>
          int (decimal_value ds) \<le> v"
        using v(2,3) Some by (simp add: k_def)
      have "\<exists>c' \<in> set (c # cl). \<exists>ds. match_state c' = Some ds \<and> int (decimal_value ds) = v"
        using v(4) Some by (auto simp: k_def)
      with v(1) a b show ?thesis unfolding eq by blast
    next
      case False
      have eq: "extractStateNumber_loop (c # cl) (?acc m) = extractStateNumber_loop cl (?acc m)"
        using Some False less by (simp add: p Let_def)
      from Cons.IH [OF Cons.prems(1) rest] obtain v where
        v: "extractStateNumber_loop cl (?acc m) = ?acc v" "m \<le> v"
          "\<forall>c \<in> set cl. \<forall>ds. match_state c = Some ds \<longrightarrow> int (decimal_value ds) \<le> v"
          "v = m \<or> (\<exists>c \<in> set cl. \<exists>ds. match_state c = Some ds \<and> int (decimal_value ds) = v)"
        by blast
      have a: "\<forall>c' \<in> set (c # cl). \<forall>ds. match_state c' = Some ds \<longrightarrow>
          int (decimal_value ds) \<le> v"
        using v(2,3) Some False by (simp add: k_def)
      have b: "v = m \<or> (\<exists>c' \<in> set (c # cl). \<exists>ds. match_state c' = Some ds \<and>
          int (decimal_value ds) = v)"
        using v(4) by auto
      from v(1,2) a b show ?thesis unfolding eq by blast
    qed
  qed
qed

lemma extractStateNumber_examples:
  "extractStateNumber [''state-2'', ''state-5''] = Some (Num 4)"
  "extractStateNumber [''state-0''] = Some (Num 0)"
  "extractStateNumber_first [''state-2'', ''state-5''] = Some (Num 1)"
proof -
  have z: "js_max (Num 0) (js_sub (Num 5) (Num 1)) = Num 4"
    "js_max (Num 0) (js_sub (Num 0) (Num 1)) = Num 0"
    "js_max (Num 0) (js_sub (Num 2) (Num 1)) = Num 1"
    using zero_based_exact [of 5] zero_based_exact [of 0] zero_based_exact [of 2]
    by simp_all
  show "extractStateNumber [''state-2'', ''state-5''] = Some (Num 4)"
    by (simp add: extractStateNumber_def match_examples parseInt10_examples z Let_def)
  show "extractStateNumber [''state-0''] = Some (Num 0)"
    by (simp add: extractStateNumber_def match_examples parseInt10_examples z Let_def)
  show "extractStateNumber_first [''state-2'', ''state-5''] = Some (Num 1)"
    by (simp add: match_examples parseInt10_examples z)
qed

lemma extractStateNumber_beyond_exact:
  "extractStateNumber [''state-9007199254740993''] = Some (Num 9007199254740991)"
proof -
  have m: "match_state ''state-9007199254740993'' = Some ''9007199254740993''"
    by (simp add: match_state_def is_digit_def Let_def)
  have "to_double (real 9007199254740991) = Num (real 9007199254740991)"
    by (rule to_double_nat_exact) simp
  then have "js_max (Num 0) (js_sub (Num 9007199254740992) (Num 1)) = Num 9007199254740991"
    by (simp add: js_sub_def)
  then show ?thesis
    by (simp add: extractStateNumber_def m parseInt10_examples Let_def)
qed

text \<open>
  C3. In the revised controller, \<open>extractStateNumber\<close> returns no index
  when no class token matches \<open>/^state-(\d+)$/\<close>, and otherwise
  \<open>max(0, N - 1)\<close> for the highest number \<open>N\<close> among the matching tokens, provided
  \<open>N \<le> 2^53\<close>, so that \<open>parseInt\<close> is exact on every matching token; this is
  \<open>N - 1\<close> when \<open>N\<close> is positive. For the class list
  \<open>["state-2", "state-5"]\<close> the result is 4.
\<close>

theorem extractStateNumber_highest:
  "((\<forall>c \<in> set classList. match_state c = None) \<longrightarrow> extractStateNumber classList = None) \<and>
   (c \<in> set classList \<and> match_state c = Some ds \<and> decimal_value ds = n \<and> n \<le> 2 ^ 53 \<and>
    (\<forall>c' \<in> set classList. \<forall>ds'. match_state c' = Some ds' \<longrightarrow> decimal_value ds' \<le> n) \<longrightarrow>
      extractStateNumber classList = Some (Num (max 0 (real n - 1))) \<and>
      (1 \<le> n \<longrightarrow> extractStateNumber classList = Some (Num (real n - 1)))) \<and>
   extractStateNumber [''state-2'', ''state-5''] = Some (Num 4)"
proof -
  have none: "extractStateNumber classList = None"
    if "\<forall>c \<in> set classList. match_state c = None"
  proof -
    from that have
      "\<forall>c \<in> set classList. \<forall>ds. match_state c = Some ds \<longrightarrow> decimal_value ds \<le> 2 ^ 53"
      by simp
    from extractStateNumber_loop_max [of "- 1", OF _ this] obtain v where
      v: "extractStateNumber_loop classList (None, Num (- 1)) =
            (if v = - 1 then None else Some (Num (of_int v)), Num (of_int v))"
        "v = - 1 \<or> (\<exists>c \<in> set classList. \<exists>ds. match_state c = Some ds \<and>
            int (decimal_value ds) = v)"
      by auto
    from v(2) that have "v = - 1" by auto
    with v(1) show ?thesis by (simp add: extractStateNumber_def)
  qed
  have some: "extractStateNumber classList = Some (Num (max 0 (real n - 1)))"
    if "c \<in> set classList" "match_state c = Some ds" "decimal_value ds = n" "n \<le> 2 ^ 53"
      "\<forall>c' \<in> set classList. \<forall>ds'. match_state c' = Some ds' \<longrightarrow> decimal_value ds' \<le> n"
  proof -
    from that(4,5) have
      "\<forall>c \<in> set classList. \<forall>ds. match_state c = Some ds \<longrightarrow> decimal_value ds \<le> 2 ^ 53"
      by (meson order_trans)
    from extractStateNumber_loop_max [of "- 1", OF _ this] obtain v where
      v: "extractStateNumber_loop classList (None, Num (- 1)) =
            (if v = - 1 then None else Some (Num (of_int v)), Num (of_int v))"
        "\<forall>c \<in> set classList. \<forall>ds. match_state c = Some ds \<longrightarrow> int (decimal_value ds) \<le> v"
        "v = - 1 \<or> (\<exists>c \<in> set classList. \<exists>ds. match_state c = Some ds \<and>
            int (decimal_value ds) = v)"
      by auto
    from v(2) that(1,2,3) have ge: "int n \<le> v" by blast
    then have ne: "v \<noteq> - 1" by simp
    with v(3) obtain c' ds' where "c' \<in> set classList" "match_state c' = Some ds'"
      "int (decimal_value ds') = v"
      by blast
    with that(5) have "v \<le> int n" by auto
    with ge have "v = int n" by simp
    with v(1) have "extractStateNumber classList =
        Some (js_max (Num 0) (js_sub (Num (real n)) (Num 1)))"
      by (simp add: extractStateNumber_def)
    then show ?thesis unfolding zero_based_exact [OF that(4)] .
  qed
  have ex: "extractStateNumber [''state-2'', ''state-5''] = Some (Num 4)"
    by (rule extractStateNumber_examples)
  have pos: "max 0 (real n - 1) = real n - 1" if "1 \<le> n"
    using that by simp
  from none some ex pos show ?thesis by auto
qed

theorem extractStateNumber_highest_witness:
  "''state-7'' \<in> set [''w-tab'', ''state-3'', ''state-7''] \<and>
   match_state ''state-7'' = Some ''7'' \<and> decimal_value ''7'' = 7 \<and>
   extractStateNumber [''w-tab'', ''state-3'', ''state-7''] = Some (Num 6) \<and>
   extractStateNumber [''w-tab'', ''hero''] = None"
proof -
  have m: "match_state ''w-tab'' = None" "match_state ''hero'' = None"
    "match_state ''state-3'' = Some ''3''" "match_state ''state-7'' = Some ''7''"
    by (simp_all add: match_state_def is_digit_def Let_def)
  have d: "decimal_value ''7'' = 7" "decimal_value ''3'' = 3"
    by (simp_all add: decimal_examples)
  have a: "\<forall>c \<in> set [''w-tab'', ''hero'']. match_state c = None"
    using m by simp
  have b: "''state-7'' \<in> set [''w-tab'', ''state-3'', ''state-7''] \<and>
      match_state ''state-7'' = Some ''7'' \<and> decimal_value ''7'' = 7 \<and>
      (7::nat) \<le> 2 ^ 53 \<and>
      (\<forall>c' \<in> set [''w-tab'', ''state-3'', ''state-7'']. \<forall>ds'.
          match_state c' = Some ds' \<longrightarrow> decimal_value ds' \<le> 7)"
    using m d by auto
  from extractStateNumber_highest [of "[''w-tab'', ''hero'']" "''x''" "''0''" 0] a
  have n: "extractStateNumber [''w-tab'', ''hero''] = None" by blast
  have o: "(1::nat) \<le> 7" by simp
  from extractStateNumber_highest [of "[''w-tab'', ''state-3'', ''state-7'']" "''state-7''"
      "''7''" 7] b o
  have "extractStateNumber [''w-tab'', ''state-3'', ''state-7''] = Some (Num (real 7 - 1))"
    by blast
  then have s: "extractStateNumber [''w-tab'', ''state-3'', ''state-7''] = Some (Num 6)"
    by simp
  from b n s show ?thesis by blast
qed

text \<open>
  The token \<open>state-0\<close> matches and yields index 0. Above \<open>2^53\<close> the result of
  \<open>parseInt\<close> is rounded: \<open>state-9007199254740993\<close> yields 9007199254740991.
\<close>

theorem extractStateNumber_counterexample:
  "match_state ''state-0'' = Some ''0'' \<and> extractStateNumber [''state-0''] = Some (Num 0) \<and>
   match_state ''state-9007199254740993'' = Some ''9007199254740993'' \<and>
   extractStateNumber [''state-9007199254740993''] = Some (Num 9007199254740991)"
proof -
  have "match_state ''state-9007199254740993'' = Some ''9007199254740993''"
    by (simp add: match_state_def is_digit_def Let_def)
  then show ?thesis
    by (simp add: match_examples extractStateNumber_examples extractStateNumber_beyond_exact)
qed

subsection \<open>Recording and applying the initial image\<close>










subsection \<open>Replacing the image sequence\<close>

lemma onTexturesLoaded_drops_unloaded_pending:
  assumes "material s = None" and "js_get (textures s) 0 \<noteq> None"
    and "js_get (textures s) 1 \<noteq> None" and "displacementTexture s \<noteq> None"
    and "pendingInitialIndex s = Some p" and "js_get (textures s) p = None"
  shows "onTexturesLoaded s = (createMesh (createMaterial s))\<lparr>pendingInitialIndex := None\<rparr>"
proof -
  let ?s1 = "createMesh (createMaterial s)"
  have f: "textures ?s1 = textures s" "pendingInitialIndex ?s1 = Some p"
    using assms(5) by (simp_all add: createMesh_def createMaterial_def Let_def)
  have "applyInitialImage p ?s1 = ?s1"
    using assms(6) f(1) by (simp add: applyInitialImage_def split: option.splits)
  then show ?thesis
    using assms f(2) by (auto simp: onTexturesLoaded_def Let_def)
qed

lemma onTexturesLoaded_no_pending:
  assumes "pendingInitialIndex s = None"
  shows "currentIndex (onTexturesLoaded s) = currentIndex s"
    and "pendingInitialIndex (onTexturesLoaded s) = None"
    and "images (onTexturesLoaded s) = images s"
  using assms
  by (simp_all add: onTexturesLoaded_def createMaterial_def createMesh_def Let_def)

lemma setImages_onLoad_no_pending:
  assumes "pendingInitialIndex (snd cs) = None"
  shows "currentIndex (snd (setImages_onLoad k tex cs)) = currentIndex (snd cs)"
    and "pendingInitialIndex (snd (setImages_onLoad k tex cs)) = None"
    and "images (snd (setImages_onLoad k tex cs)) = images (snd cs)"
  using assms
  by (simp_all add: setImages_onLoad_def Let_def onTexturesLoaded_no_pending
      split: option.splits)

lemma setImages_loads_no_pending:
  assumes "pendingInitialIndex (snd cs) = None"
  shows "currentIndex (snd (setImages_loads outcomes cs)) = currentIndex (snd cs) \<and>
     pendingInitialIndex (snd (setImages_loads outcomes cs)) = None \<and>
     images (snd (setImages_loads outcomes cs)) = images (snd cs)"
  using assms
proof (induction outcomes cs rule: setImages_loads.induct)
  case (1 cs)
  then show ?case by simp
next
  case (2 index tex rest cs)
  note l = setImages_onLoad_no_pending [OF "2.prems", of index tex]
  from "2.IH" [OF l(2)] l show ?case by simp
next
  case (3 index rest cs)
  have e: "pendingInitialIndex (snd (setImages_onError index cs)) = None"
    "currentIndex (snd (setImages_onError index cs)) = currentIndex (snd cs)"
    "images (snd (setImages_onError index cs)) = images (snd cs)"
    using "3.prems" by (simp_all add: setImages_onError_def)
  from "3.IH" [OF e(1)] e show ?case by simp
qed

lemma setImages_batch_no_pending:
  assumes "pendingInitialIndex s = None"
  shows "currentIndex (setImages_batch urls extra outcomes s) = currentIndex s"
    and "urls \<noteq> [] \<Longrightarrow> images (setImages_batch urls extra outcomes s) = urls"
proof -
  show "currentIndex (setImages_batch urls extra outcomes s) = currentIndex s"
  proof (cases "urls = []")
    case True
    then show ?thesis by (simp add: setImages_batch_def setImages_def)
  next
    case False
    let ?c = "\<lparr>loadedImageCount = 0, totalImages = length urls\<rparr>"
    let ?s1 = "s\<lparr>disposed := disposed s @ List.map_filter (\<lambda>t. t) (textures s),
        textures := [], textureResolutions := [], images := urls\<rparr>"
    have eq: "setImages_batch urls extra outcomes s = snd (setImages_loads outcomes (?c, ?s1))"
      using False by (simp add: setImages_batch_def setImages_def Let_def)
    have "pendingInitialIndex (snd (?c, ?s1)) = None" using assms by simp
    from setImages_loads_no_pending [OF this, of outcomes] show ?thesis
      unfolding eq by simp
  qed
  show "images (setImages_batch urls extra outcomes s) = urls" if "urls \<noteq> []"
  proof -
    let ?c = "\<lparr>loadedImageCount = 0, totalImages = length urls\<rparr>"
    let ?s1 = "s\<lparr>disposed := disposed s @ List.map_filter (\<lambda>t. t) (textures s),
        textures := [], textureResolutions := [], images := urls\<rparr>"
    have eq: "setImages_batch urls extra outcomes s = snd (setImages_loads outcomes (?c, ?s1))"
      using that by (simp add: setImages_batch_def setImages_def Let_def)
    have "pendingInitialIndex (snd (?c, ?s1)) = None" using assms by simp
    from setImages_loads_no_pending [OF this, of outcomes] show ?thesis
      unfolding eq by simp
  qed
qed

text \<open>
  C2. A completion callback passed to \<open>setImages\<close> is bound to no parameter and
  never runs: the call and every run of a batch are the same with and without it. In the
  batch the revised controller starts (three images, all loaded, callback
  \<open>setInitialImage(2)\<close>) \<open>currentIndex\<close> is still 0 at the end, where one run of
  the callback after the loads would have made it 2.
\<close>

theorem setImages_ignores_callback:
  "setImages urls (Some callback) s = setImages urls None s \<and>
   setImages_batch urls (Some callback) outcomes s = setImages_batch urls None outcomes s \<and>
   currentIndex (setImages_batch [''a.jpg'', ''b.jpg'', ''c.jpg'']
      (Some (initEngine_callback 2)) demo_outcomes demo_engine) = 0 \<and>
   currentIndex (initEngine_callback 2 (setImages_batch [''a.jpg'', ''b.jpg'', ''c.jpg'']
      (Some (initEngine_callback 2)) demo_outcomes demo_engine)) = 2"
proof -
  have a: "setImages urls (Some callback) s = setImages urls None s"
    by (simp add: setImages_def)
  then have b: "setImages_batch urls (Some callback) outcomes s =
      setImages_batch urls None outcomes s"
    by (simp add: setImages_batch_def)
  define final where "final = setImages_batch [''a.jpg'', ''b.jpg'', ''c.jpg'']
      (Some (initEngine_callback 2)) demo_outcomes demo_engine"
  have p: "pendingInitialIndex demo_engine = None" and c0: "currentIndex demo_engine = 0"
    by (simp_all add: demo_engine_def demo_loading_def)
  have c: "currentIndex final = 0"
    unfolding final_def using setImages_batch_no_pending(1) [OF p] c0 by simp
  have "images final = [''a.jpg'', ''b.jpg'', ''c.jpg'']"
    unfolding final_def by (rule setImages_batch_no_pending(2) [OF p]) simp
  then have l: "length (images final) = 3" by simp
  have d: "currentIndex (initEngine_callback 2 final) = 2"
    using l by (simp add: initEngine_callback_def setInitialImage_currentIndex)
  from a b c d show ?thesis unfolding final_def by blast
qed

end
